theory Spec2Isabelle
  imports Main "HOL-Library.Word" "HOL-Library.Sublist"
begin

section \<open>Buffers and the generic hash (lib/crypto.js)\<close>

type_synonym byte = "8 word"
type_synonym bytes = "byte list"

text \<open>
  The generic hash of sodium-universal is an external library: it is a parameter
  \<open>gh\<close> of the model, called with the requested digest length and the input.
  A freshly allocated unsafe buffer holds whatever the memory held before; that
  memory is the parameter \<open>mem\<close>, read at the positions of the buffer.
\<close>

type_synonym hashfn = "nat \<Rightarrow> bytes \<Rightarrow> bytes"
type_synonym memory = "nat \<Rightarrow> byte"


datatype alloc_kind = Slab | Unslabbed

text \<open>
  A buffer object is a view (offset and length) onto a backing store; \<open>subarray\<close>
  makes a second view onto the same store, so a write through one view is seen through
  the other. The backing store is passed explicitly.
\<close>

record view =
  v_off :: nat
  v_len :: nat

definition allocUnsafe :: "memory \<Rightarrow> nat \<Rightarrow> alloc_kind \<times> bytes" where
  "allocUnsafe mem n = (Slab, map mem [0..<n])"

definition allocUnsafeSlow :: "memory \<Rightarrow> nat \<Rightarrow> alloc_kind \<times> bytes" where
  "allocUnsafeSlow mem n = (Unslabbed, map mem [0..<n])"

definition whole :: "bytes \<Rightarrow> view" where
  "whole store = \<lparr>v_off = 0, v_len = length store\<rparr>"


definition read_view :: "bytes \<Rightarrow> view \<Rightarrow> bytes" where
  "read_view store v = take (v_len v) (drop (v_off v) store)"

definition write_at :: "bytes \<Rightarrow> nat \<Rightarrow> bytes \<Rightarrow> bytes" where
  "write_at store off d = take off store @ d @ drop (off + length d) store"

definition crypto_generichash :: "hashfn \<Rightarrow> bytes \<Rightarrow> view \<Rightarrow> bytes \<Rightarrow> bytes" where
  "crypto_generichash gh store out data =
     write_at store (v_off out) (take (v_len out) (gh (v_len out) data))"

definition hash :: "hashfn \<Rightarrow> memory \<Rightarrow> bytes \<Rightarrow> alloc_kind \<times> bytes" where
  "hash gh mem data =
     (let (kind, store) = allocUnsafe mem 32;
          out = whole store;
          store' = crypto_generichash gh store out data
      in (kind, read_view store' out))"

definition unslabbedHash :: "hashfn \<Rightarrow> memory \<Rightarrow> bytes \<Rightarrow> alloc_kind \<times> bytes" where
  "unslabbedHash gh mem data =
     (let (kind, store) = allocUnsafeSlow mem 32;
          out = whole store;
          store' = crypto_generichash gh store out data
      in (kind, read_view store' out))"

section \<open>The signable of a mutable record (direct sign/verify tests)\<close>







text \<open>
  The signable as the specification words it: the 32-byte namespace tag followed by the
  32-byte generic hash of the canonical encoding of sequence and value.
\<close>

definition spec_signable :: "bytes \<Rightarrow> hashfn \<Rightarrow> ('s \<Rightarrow> bytes \<Rightarrow> bytes) \<Rightarrow> 's \<Rightarrow> bytes \<Rightarrow> bytes" where
  "spec_signable ns gh enc seq val = ns @ gh 32 (enc seq val)"

section \<open>The test network (createStandardTestnet and Testnet)\<close>

datatype backend = Red25519 | Standard

record contact =
  c_host :: string
  c_port :: nat

text \<open>The options object handed to a node constructor.\<close>

record dht_opts =
  ephemeral :: bool
  firewalled :: bool
  bootstrap :: "contact list"
  port :: "nat option"
  host :: string

text \<open>
  A node is identified by its creation index. \<open>backend_of\<close> tells which constructor
  made it: \<open>DHT\<close> of index.js (red25519) or \<open>StandardHyperDHT\<close>.
\<close>

record node =
  node_id :: nat
  backend_of :: backend
  opts_of :: dht_opts

record testnet =
  nodes :: "node list"
  tn_bootstrap :: "contact list"

text \<open>
  The second argument of \<open>createStandardTestnet\<close> is either a function (taken as the
  teardown hook) or an options object, each of whose properties may be missing.
  \<open>o_teardown\<close> tells whether the object has a teardown hook.
\<close>

record testnet_opts =
  o_teardown :: bool
  o_host :: "string option"
  o_port :: "nat option"
  o_bootstrap :: "contact list option"
  o_includeRed25519 :: "bool option"

datatype opts = OptsFunction | OptsObject testnet_opts

text \<open>
  What the code does to the outside is recorded as a trace of events: a node
  constructor call, an awaited promise that resolved (\<open>fullyBootstrapped\<close>,
  \<open>server.close\<close>, \<open>node.destroy\<close>), and the call of the caller's teardown hook with the
  callback that destroys the given testnet.
\<close>

datatype event =
    Construct node
  | FullyBootstrapped nat
  | Teardown testnet
  | Closed nat nat
  | Destroyed nat

text \<open>
  An awaited promise of the network layer resolves, rejects (the await throws) or never
  settles (the caller never resumes). The error names the awaited step that did not
  resolve.
\<close>

datatype settle = Resolved | Rejects | Never

datatype error = Rejected event | Unsettled event

text \<open>
  The environment: how each awaited promise settles, the port the operating system bound
  a node to (\<open>address().port\<close>), and the servers in each node's \<open>listening\<close> set, in
  iteration order, when the testnet is destroyed. Nodes are named by creation index,
  servers by a number.
\<close>

record world =
  bootstrapped :: "nat \<Rightarrow> settle"
  address_port :: "nat \<Rightarrow> nat"
  listening :: "nat \<Rightarrow> nat list"
  closes :: "nat \<Rightarrow> nat \<Rightarrow> settle"
  destroys :: "nat \<Rightarrow> settle"

definition teardown_of :: "opts \<Rightarrow> bool" where
  "teardown_of opts = (case opts of OptsFunction \<Rightarrow> True | OptsObject ob \<Rightarrow> o_teardown ob)"

definition host_of :: "opts \<Rightarrow> string" where
  "host_of opts =
     (case opts of
        OptsFunction \<Rightarrow> ''127.0.0.1''
      | OptsObject ob \<Rightarrow>
          (case o_host ob of
             None \<Rightarrow> ''127.0.0.1''
           | Some h \<Rightarrow> if h = [] then ''127.0.0.1'' else h))"

definition port_of :: "opts \<Rightarrow> nat" where
  "port_of opts =
     (case opts of
        OptsFunction \<Rightarrow> 0
      | OptsObject ob \<Rightarrow> (case o_port ob of None \<Rightarrow> 0 | Some p \<Rightarrow> p))"

definition bootstrap_of :: "opts \<Rightarrow> contact list" where
  "bootstrap_of opts =
     (case opts of
        OptsFunction \<Rightarrow> []
      | OptsObject ob \<Rightarrow> (case o_bootstrap ob of None \<Rightarrow> [] | Some bs \<Rightarrow> bs))"

definition bindHost_of :: "string \<Rightarrow> string" where
  "bindHost_of h = (if h = ''127.0.0.1'' then ''127.0.0.1'' else ''0.0.0.0'')"

definition includeRed25519_of :: "opts \<Rightarrow> bool" where
  "includeRed25519_of opts =
     (case opts of
        OptsFunction \<Rightarrow> False
      | OptsObject ob \<Rightarrow> (case o_includeRed25519 ob of None \<Rightarrow> False | Some b \<Rightarrow> b))"

text \<open>The first node, and a node of the loop, as the constructor calls build them.\<close>

definition first_node :: "bool \<Rightarrow> contact list \<Rightarrow> nat \<Rightarrow> string \<Rightarrow> node" where
  "first_node includeRed25519 bs p bindHost =
     \<lparr>node_id = 0,
      backend_of = (if includeRed25519 then Red25519 else Standard),
      opts_of = \<lparr>ephemeral = False, firewalled = False, bootstrap = bs,
                 port = Some p, host = bindHost\<rparr>\<rparr>"

definition loop_node :: "contact list \<Rightarrow> string \<Rightarrow> nat \<Rightarrow> node" where
  "loop_node bs bindHost i =
     \<lparr>node_id = i,
      backend_of = Standard,
      opts_of = \<lparr>ephemeral = False, firewalled = False, bootstrap = bs,
                 port = None, host = bindHost\<rparr>\<rparr>"

text \<open>
  The loop \<open>while (swarm.length < size)\<close>. The state is the swarm and the trace so far.
  The new node's creation index is the length of the swarm.
\<close>

function spawn :: "world \<Rightarrow> int \<Rightarrow> string \<Rightarrow> contact list \<Rightarrow> node list \<Rightarrow> event list
    \<Rightarrow> event list \<times> (error + node list)" where
  "spawn w sz bindHost bs swarm tr =
     (if int (length swarm) < sz then
        (case bootstrapped w (length swarm) of
           Resolved \<Rightarrow>
             spawn w sz bindHost bs (swarm @ [loop_node bs bindHost (length swarm)])
               (tr @ [Construct (loop_node bs bindHost (length swarm)),
                      FullyBootstrapped (length swarm)])
         | Rejects \<Rightarrow>
             (tr @ [Construct (loop_node bs bindHost (length swarm))],
              Inl (Rejected (FullyBootstrapped (length swarm))))
         | Never \<Rightarrow>
             (tr @ [Construct (loop_node bs bindHost (length swarm))],
              Inl (Unsettled (FullyBootstrapped (length swarm)))))
      else (tr, Inr swarm))"
  by pat_completeness auto
termination
  by (relation "measure (\<lambda>(w, sz, bindHost, bs, swarm, tr). nat (sz - int (length swarm)))")
    auto

declare spawn.simps [simp del]

text \<open>The empty options object \<open>{}\<close>, the default of the second argument.\<close>

definition default_opts :: opts where
  "default_opts = OptsObject \<lparr>o_teardown = False, o_host = None, o_port = None,
                             o_bootstrap = None, o_includeRed25519 = None\<rparr>"

text \<open>
  \<open>createStandardTestnet(size = 10, opts = {})\<close>, with \<open>sz\<close> for the source's
  \<open>size\<close>. A missing size is 10, and missing options are the empty object. The
  bootstrap array is one object shared by all constructor calls; the model records in
  each node the contents the array had when the node was constructed, so the first node
  holds the contents before its own address was pushed.
\<close>

definition createStandardTestnet :: "world \<Rightarrow> int option \<Rightarrow> opts option
    \<Rightarrow> event list \<times> (error + testnet)" where
  "createStandardTestnet w size_arg opts_arg =
     (let sz = (case size_arg of None \<Rightarrow> 10 | Some n \<Rightarrow> n);
          opts = (case opts_arg of None \<Rightarrow> default_opts | Some ob \<Rightarrow> ob);
          teardown = teardown_of opts;
          h = host_of opts;
          p = port_of opts;
          bs = bootstrap_of opts;
          bindHost = bindHost_of h;
          includeRed25519 = includeRed25519_of opts
      in if sz = 0 then ([], Inr \<lparr>nodes = [], tn_bootstrap = []\<rparr>)
         else
           (let first = first_node includeRed25519 bs p bindHost
            in case bootstrapped w 0 of
                 Rejects \<Rightarrow> ([Construct first], Inl (Rejected (FullyBootstrapped 0)))
               | Never \<Rightarrow> ([Construct first], Inl (Unsettled (FullyBootstrapped 0)))
               | Resolved \<Rightarrow>
                   (let bs' = (if length bs = 0
                               then bs @ [\<lparr>c_host = h, c_port = address_port w 0\<rparr>]
                               else bs)
                    in case spawn w sz bindHost bs' [first]
                              [Construct first, FullyBootstrapped 0] of
                         (tr, Inl e) \<Rightarrow> (tr, Inl e)
                       | (tr, Inr swarm) \<Rightarrow>
                           (let t = \<lparr>nodes = swarm, tn_bootstrap = bs'\<rparr>
                            in (if teardown then tr @ [Teardown t] else tr, Inr t)))))"

text \<open>
  \<open>Testnet.destroy\<close>: the inner loop over one node's servers, the outer loop over the
  nodes, and the downward loop \<open>for (i = length - 1; i >= 0; i--)\<close>, whose counter is
  kept as \<open>i + 1\<close> so that it stays a natural number.
\<close>

fun close_servers :: "world \<Rightarrow> nat \<Rightarrow> nat list \<Rightarrow> event list \<Rightarrow> event list \<times> (error + unit)" where
  "close_servers w n [] tr = (tr, Inr ())"
| "close_servers w n (s # ss) tr =
     (case closes w n s of
        Resolved \<Rightarrow> close_servers w n ss (tr @ [Closed n s])
      | Rejects \<Rightarrow> (tr, Inl (Rejected (Closed n s)))
      | Never \<Rightarrow> (tr, Inl (Unsettled (Closed n s))))"

fun close_all :: "world \<Rightarrow> node list \<Rightarrow> event list \<Rightarrow> event list \<times> (error + unit)" where
  "close_all w [] tr = (tr, Inr ())"
| "close_all w (n # ns) tr =
     (case close_servers w (node_id n) (listening w (node_id n)) tr of
        (tr', Inl e) \<Rightarrow> (tr', Inl e)
      | (tr', Inr u) \<Rightarrow> close_all w ns tr')"

fun destroy_down :: "world \<Rightarrow> node list \<Rightarrow> nat \<Rightarrow> event list \<Rightarrow> event list \<times> (error + unit)" where
  "destroy_down w ns 0 tr = (tr, Inr ())"
| "destroy_down w ns (Suc i) tr =
     (case destroys w (node_id (ns ! i)) of
        Resolved \<Rightarrow> destroy_down w ns i (tr @ [Destroyed (node_id (ns ! i))])
      | Rejects \<Rightarrow> (tr, Inl (Rejected (Destroyed (node_id (ns ! i)))))
      | Never \<Rightarrow> (tr, Inl (Unsettled (Destroyed (node_id (ns ! i))))))"

definition destroy :: "world \<Rightarrow> testnet \<Rightarrow> event list \<times> (error + unit)" where
  "destroy w t =
     (case close_all w (nodes t) [] of
        (tr, Inl e) \<Rightarrow> (tr, Inl e)
      | (tr, Inr u) \<Rightarrow> destroy_down w (nodes t) (length (nodes t)) tr)"

section \<open>The mutable record store and the put of the replication protocol\<close>

text \<open>
  The record store of a node and \<open>mutablePut\<close> are code of the repository (the
  \<open>DHT\<close> class of index.js and its storage handlers) that the tests call but that is not
  among the sources. They are modelled from the specification. The signature
  scheme is external: \<open>sign\<close> and \<open>verify\<close> are parameters.
\<close>

record mutable_record =
  publicKey :: bytes
  sequence :: "64 word"
  value_of :: bytes
  signature :: bytes

type_synonym store = "bytes \<rightharpoonup> mutable_record"

type_synonym verifyfn = "bytes \<Rightarrow> bytes \<Rightarrow> bytes \<Rightarrow> bool"

text \<open>
  Modelled from the spec: the put of the Mutable Record Store (the storage handler of a
  node, missing from the sources). The record's signature is verified over the signable
  of its sequence and value; an invalid record is rejected with no state change. A valid
  record replaces the stored one only if its sequence is strictly greater than the
  stored sequence, an absent entry counting as minus infinity. The result tells whether
  the record was accepted. \<open>verify\<close> takes the signable, the signature and the public
  key.
\<close>

definition put :: "verifyfn \<Rightarrow> bytes \<Rightarrow> hashfn \<Rightarrow> (64 word \<Rightarrow> bytes \<Rightarrow> bytes) \<Rightarrow> store
    \<Rightarrow> mutable_record \<Rightarrow> store \<times> bool" where
  "put verify ns gh enc st r =
     (if \<not> verify (spec_signable ns gh enc (sequence r) (value_of r)) (signature r) (publicKey r)
      then (st, False)
      else (case st (publicKey r) of
              None \<Rightarrow> (st(publicKey r \<mapsto> r), True)
            | Some cur \<Rightarrow>
                if sequence cur < sequence r then (st(publicKey r \<mapsto> r), True)
                else (st, False)))"

text \<open>
  Modelled from the spec: the get of the Mutable Record Store (missing from the sources),
  a pure read of the current state that returns absent if the key was never written.
\<close>

definition get :: "store \<Rightarrow> bytes \<Rightarrow> mutable_record option" where
  "get st pk = st pk"

record keyPair =
  kp_publicKey :: bytes
  secretKey :: bytes

record put_options =
  opt_seq :: "64 word option"

record put_result =
  res_signature :: bytes
  res_seq :: "64 word"
  res_publicKey :: bytes
  respondingPeers :: "nat list"

datatype put_error = NetworkUnavailable

text \<open>
  Modelled from the spec: the put of the Record Replication Protocol (\<open>mutablePut\<close> of
  index.js, missing from the sources). The target key is the hash of the public key; the
  routing layer (the parameter \<open>closest\<close>) gives the nodes closest to it; the record is
  built with sequence 0 unless the caller supplies one, signed once, and the identical
  signed record is sent to every target (\<open>deliver\<close> tells whether a target was
  reached). The put fails if no target was reached. Besides the result, the model
  returns what was sent: each target with the record sent to it, in order.
\<close>

definition mutablePut :: "(bytes \<Rightarrow> bytes \<Rightarrow> bytes) \<Rightarrow> (bytes \<Rightarrow> nat list)
    \<Rightarrow> (nat \<Rightarrow> mutable_record \<Rightarrow> bool) \<Rightarrow> bytes \<Rightarrow> hashfn \<Rightarrow> (64 word \<Rightarrow> bytes \<Rightarrow> bytes)
    \<Rightarrow> keyPair \<Rightarrow> bytes \<Rightarrow> put_options
    \<Rightarrow> (nat \<times> mutable_record) list \<times> (put_error + put_result)" where
  "mutablePut sign closest deliver ns gh enc kp v opts =
     (let target = gh 32 (kp_publicKey kp);
          targets = closest target;
          s = (case opt_seq opts of None \<Rightarrow> 0 | Some n \<Rightarrow> n);
          sg = sign (spec_signable ns gh enc s v) (secretKey kp);
          r = \<lparr>publicKey = kp_publicKey kp, sequence = s, value_of = v, signature = sg\<rparr>;
          sent = map (\<lambda>n. (n, r)) targets;
          reached = filter (\<lambda>n. deliver n r) targets
      in (sent,
          if reached = [] then Inl NetworkUnavailable
          else Inr \<lparr>res_signature = sg, res_seq = s, res_publicKey = kp_publicKey kp,
                    respondingPeers = reached\<rparr>))"

section \<open>Closed forms of the traces and of the created testnet\<close>

text \<open>
  The following definitions are not translations of source functions: they write down,
  in closed form, what the loops are expected to produce, and the lemmas below compare
  the loops with them.
\<close>

definition created_events :: "contact list \<Rightarrow> string \<Rightarrow> nat \<Rightarrow> nat \<Rightarrow> event list" where
  "created_events bs bindHost a b =
     concat (map (\<lambda>i. [Construct (loop_node bs bindHost i), FullyBootstrapped i]) [a..<b])"

definition shared_bootstrap :: "world \<Rightarrow> opts \<Rightarrow> contact list" where
  "shared_bootstrap w opts =
     (if bootstrap_of opts = [] then [\<lparr>c_host = host_of opts, c_port = address_port w 0\<rparr>]
      else bootstrap_of opts)"

definition expected_node :: "world \<Rightarrow> opts \<Rightarrow> nat \<Rightarrow> node" where
  "expected_node w opts i =
     (if i = 0
      then first_node (includeRed25519_of opts) (bootstrap_of opts) (port_of opts)
             (bindHost_of (host_of opts))
      else loop_node (shared_bootstrap w opts) (bindHost_of (host_of opts)) i)"

definition expected_trace :: "world \<Rightarrow> opts \<Rightarrow> nat \<Rightarrow> event list" where
  "expected_trace w opts n =
     concat (map (\<lambda>i. [Construct (expected_node w opts i), FullyBootstrapped i]) [0..<n])"

definition expected_testnet :: "world \<Rightarrow> opts \<Rightarrow> nat \<Rightarrow> testnet" where
  "expected_testnet w opts n =
     \<lparr>nodes = map (expected_node w opts) [0..<n], tn_bootstrap = shared_bootstrap w opts\<rparr>"

definition close_events :: "world \<Rightarrow> node list \<Rightarrow> event list" where
  "close_events w ns =
     concat (map (\<lambda>n. map (Closed (node_id n)) (listening w (node_id n))) ns)"

definition destroy_events :: "node list \<Rightarrow> event list" where
  "destroy_events ns = map (\<lambda>n. Destroyed (node_id n)) (rev ns)"

section \<open>Concrete inputs\<close>

text \<open>
  A world in which every awaited promise resolves, an options object asking for host
  10.0.0.1 with a teardown hook and a red25519 seed, the testnet of three nodes created
  from them, an options object that supplies a bootstrap contact, one that asks for host
  0.0.0.0, two memories, and toy stand-ins for the external hash, encoding, signature
  scheme, routing and delivery. They serve to evaluate the model on concrete inputs.
\<close>

definition example_world :: world where
  "example_world =
     \<lparr>bootstrapped = (\<lambda>i. Resolved),
      address_port = (\<lambda>i. 49737 + i),
      listening = (\<lambda>i. if i = 1 then [7, 8] else if i = 2 then [9] else []),
      closes = (\<lambda>n s. Resolved),
      destroys = (\<lambda>n. Resolved)\<rparr>"

definition example_opts :: opts where
  "example_opts = OptsObject \<lparr>o_teardown = True, o_host = Some ''10.0.0.1'', o_port = None,
                             o_bootstrap = None, o_includeRed25519 = Some True\<rparr>"

definition example_testnet :: testnet where
  "example_testnet =
     \<lparr>nodes = [first_node True [] 0 ''0.0.0.0'',
               loop_node [\<lparr>c_host = ''10.0.0.1'', c_port = 49737\<rparr>] ''0.0.0.0'' 1,
               loop_node [\<lparr>c_host = ''10.0.0.1'', c_port = 49737\<rparr>] ''0.0.0.0'' 2],
      tn_bootstrap = [\<lparr>c_host = ''10.0.0.1'', c_port = 49737\<rparr>]\<rparr>"

definition example_verify :: verifyfn where
  "example_verify sg sig pk = (sig = pk @ sg)"

definition example_sign :: "bytes \<Rightarrow> bytes \<Rightarrow> bytes" where
  "example_sign sg sk = sk @ sg"

definition example_gh :: hashfn where
  "example_gh n d = replicate n (of_nat (length d))"

definition example_enc :: "64 word \<Rightarrow> bytes \<Rightarrow> bytes" where
  "example_enc s v = ucast s # v"

definition example_ns :: bytes where
  "example_ns = replicate 32 7"

definition example_record :: "64 word \<Rightarrow> bytes \<Rightarrow> mutable_record" where
  "example_record s v =
     \<lparr>publicKey = [1, 2], sequence = s, value_of = v,
      signature = [1, 2] @ spec_signable example_ns example_gh example_enc s v\<rparr>"

definition example_opts_contacts :: opts where
  "example_opts_contacts =
     OptsObject \<lparr>o_teardown = False, o_host = None, o_port = Some 4000,
                 o_bootstrap = Some [\<lparr>c_host = ''192.0.2.1'', c_port = 4001\<rparr>],
                 o_includeRed25519 = None\<rparr>"



definition example_opts_wildcard :: opts where
  "example_opts_wildcard =
     OptsObject \<lparr>o_teardown = False, o_host = Some ''0.0.0.0'', o_port = None,
                 o_bootstrap = None, o_includeRed25519 = None\<rparr>"

definition example_closest :: "bytes \<Rightarrow> nat list" where
  "example_closest target = [3, 30]"

definition example_deliver :: "nat \<Rightarrow> mutable_record \<Rightarrow> bool" where
  "example_deliver n r = (n = 30)"

definition example_keyPair :: keyPair where
  "example_keyPair = \<lparr>kp_publicKey = [1, 2], secretKey = [5]\<rparr>"

section \<open>Properties of the hash functions\<close>

lemma hash_digest:
  assumes "length (gh 32 data) = 32"
  shows "snd (hash gh mem data) = gh 32 data"
  using assms
  by (simp add: hash_def allocUnsafe_def crypto_generichash_def whole_def
      read_view_def write_at_def)

lemma unslabbedHash_digest:
  assumes "length (gh 32 data) = 32"
  shows "snd (unslabbedHash gh mem data) = gh 32 data"
  using assms
  by (simp add: unslabbedHash_def allocUnsafeSlow_def crypto_generichash_def whole_def
      read_view_def write_at_def)

text \<open>
  Claim C9. For every input byte string, \<open>hash\<close> and \<open>unslabbedHash\<close> return
  32-byte buffers with identical contents, whatever the unsafe allocations held before:
  both hold the 32-byte generic-hash digest of the input. The two functions differ only
  in the allocation (slab or unslabbed). The external generic hash is assumed to return
  a digest of the length it is asked for.
\<close>

theorem hash_unslabbedHash_same:
  assumes "\<And>n d. length (gh n d) = n"
  shows "length (snd (hash gh mem1 data)) = 32
       \<and> length (snd (unslabbedHash gh mem2 data)) = 32
       \<and> snd (hash gh mem1 data) = snd (unslabbedHash gh mem2 data)
       \<and> snd (hash gh mem1 data) = gh 32 data
       \<and> fst (hash gh mem1 data) = Slab
       \<and> fst (unslabbedHash gh mem2 data) = Unslabbed"
proof -
  have len: "length (gh 32 data) = 32" by (rule assms)
  have h: "snd (hash gh mem1 data) = gh 32 data" using len by (rule hash_digest)
  have u: "snd (unslabbedHash gh mem2 data) = gh 32 data"
    using len by (rule unslabbedHash_digest)
  have k1: "fst (hash gh mem1 data) = Slab"
    by (simp add: hash_def allocUnsafe_def Let_def)
  have k2: "fst (unslabbedHash gh mem2 data) = Unslabbed"
    by (simp add: unslabbedHash_def allocUnsafeSlow_def Let_def)
  from h u len k1 k2 show ?thesis by simp
qed

theorem hash_unslabbedHash_same_witness:
  "(\<forall>n d. length (replicate n (of_nat (length d) :: byte)) = n)
   \<and> snd (hash (\<lambda>n d. replicate n (of_nat (length d))) (\<lambda>i. 0) [1, 2, 3])
     = snd (unslabbedHash (\<lambda>n d. replicate n (of_nat (length d))) (\<lambda>i. 255) [1, 2, 3])
   \<and> length (snd (hash (\<lambda>n d. replicate n (of_nat (length d))) (\<lambda>i. 0) [1, 2, 3])) = 32"
  using hash_unslabbedHash_same
    [of "\<lambda>n d. replicate n (of_nat (length d))" "\<lambda>i. 0" "[1, 2, 3]" "\<lambda>i. 255"]
  by simp

section \<open>Properties of the encoder and of the signable\<close>











section \<open>Properties of the creation loop\<close>

lemma created_events_empty: "b \<le> a \<Longrightarrow> created_events bs bh a b = []"
  by (simp add: created_events_def)

lemma created_events_step:
  "a < b \<Longrightarrow> created_events bs bh a b =
     [Construct (loop_node bs bh a), FullyBootstrapped a] @ created_events bs bh (Suc a) b"
  by (simp add: created_events_def upt_conv_Cons)

lemma spawn_resolved:
  assumes "\<And>i. length swarm \<le> i \<Longrightarrow> int i < sz \<Longrightarrow> bootstrapped w i = Resolved"
  shows "spawn w sz bh bs swarm tr =
           (tr @ created_events bs bh (length swarm) (nat sz),
            Inr (swarm @ map (loop_node bs bh) [length swarm..<nat sz]))"
  using assms
proof (induction w sz bh bs swarm tr rule: spawn.induct)
  case (1 w sz bh bs swarm tr)
  show ?case
  proof (cases "int (length swarm) < sz")
    case True
    then have lt: "length swarm < nat sz" by linarith
    have r: "bootstrapped w (length swarm) = Resolved"
      using "1.prems" True by simp
    have ih: "spawn w sz bh bs (swarm @ [loop_node bs bh (length swarm)])
                (tr @ [Construct (loop_node bs bh (length swarm)), FullyBootstrapped (length swarm)])
              = ((tr @ [Construct (loop_node bs bh (length swarm)), FullyBootstrapped (length swarm)])
                   @ created_events bs bh (Suc (length swarm)) (nat sz),
                 Inr ((swarm @ [loop_node bs bh (length swarm)])
                   @ map (loop_node bs bh) [Suc (length swarm)..<nat sz]))"
      using "1.IH" [OF True r] "1.prems" by simp
    show ?thesis
      using True r ih lt
      by (subst spawn.simps) (simp add: created_events_step upt_conv_Cons)
  next
    case False
    then have "nat sz \<le> length swarm" by linarith
    then show ?thesis using False
      by (subst spawn.simps) (simp add: created_events_empty)
  qed
qed

lemma spawn_prefix:
  "prefix tr (fst (spawn w sz bh bs swarm tr))
   \<and> prefix (fst (spawn w sz bh bs swarm tr)) (tr @ created_events bs bh (length swarm) (nat sz))"
proof (induction w sz bh bs swarm tr rule: spawn.induct)
  case (1 w sz bh bs swarm tr)
  show ?case
  proof (cases "int (length swarm) < sz")
    case True
    then have lt: "length swarm < nat sz" by linarith
    show ?thesis
    proof (cases "bootstrapped w (length swarm)")
      case Resolved
      from "1.IH" [OF True Resolved] True Resolved lt show ?thesis
        by (subst (1 2) spawn.simps) (auto simp: created_events_step dest: append_prefixD)
    next
      case Rejects
      with True lt show ?thesis
        by (subst (1 2) spawn.simps) (simp add: created_events_step)
    next
      case Never
      with True lt show ?thesis
        by (subst (1 2) spawn.simps) (simp add: created_events_step)
    qed
  next
    case False
    then show ?thesis by (subst (1 2) spawn.simps) simp
  qed
qed

lemma spawn_Inr:
  assumes "spawn w sz bh bs swarm tr = (tr', Inr swarm')"
  shows "tr' = tr @ created_events bs bh (length swarm) (nat sz)
       \<and> swarm' = swarm @ map (loop_node bs bh) [length swarm..<nat sz]
       \<and> (\<forall>i. length swarm \<le> i \<and> i < nat sz \<longrightarrow> bootstrapped w i = Resolved)"
  using assms
proof (induction w sz bh bs swarm tr rule: spawn.induct)
  case (1 w sz bh bs swarm tr)
  show ?case
  proof (cases "int (length swarm) < sz")
    case True
    then have lt: "length swarm < nat sz" by linarith
    show ?thesis
    proof (cases "bootstrapped w (length swarm)")
      case Resolved
      have rec: "spawn w sz bh bs (swarm @ [loop_node bs bh (length swarm)])
                (tr @ [Construct (loop_node bs bh (length swarm)), FullyBootstrapped (length swarm)])
                 = (tr', Inr swarm')"
        using "1.prems" True Resolved by (subst (asm) spawn.simps) simp
      from "1.IH" [OF True Resolved rec] lt Resolved show ?thesis
        by (auto simp: created_events_step upt_conv_Cons elim: le_neq_implies_less
            dest!: le_imp_less_or_eq)
    next
      case Rejects
      with "1.prems" True show ?thesis by (subst (asm) spawn.simps) simp
    next
      case Never
      with "1.prems" True show ?thesis by (subst (asm) spawn.simps) simp
    qed
  next
    case False
    then have "nat sz \<le> length swarm" by linarith
    with "1.prems" False show ?thesis
      by (subst (asm) spawn.simps) (auto simp: created_events_empty)
  qed
qed

lemma expected_trace_split:
  assumes "0 < n"
  shows "expected_trace w opts n =
     [Construct (expected_node w opts 0), FullyBootstrapped 0]
       @ created_events (shared_bootstrap w opts) (bindHost_of (host_of opts)) (Suc 0) n"
proof -
  have eq: "map (\<lambda>i. [Construct (expected_node w opts i), FullyBootstrapped i]) [Suc 0..<n]
      = map (\<lambda>i. [Construct (loop_node (shared_bootstrap w opts) (bindHost_of (host_of opts)) i),
                    FullyBootstrapped i]) [Suc 0..<n]"
    by (rule map_cong) (auto simp: expected_node_def)
  have "expected_trace w opts n =
     [Construct (expected_node w opts 0), FullyBootstrapped 0]
       @ concat (map (\<lambda>i. [Construct (expected_node w opts i), FullyBootstrapped i]) [Suc 0..<n])"
    using assms by (simp add: expected_trace_def upt_conv_Cons)
  then show ?thesis by (simp only: eq created_events_def)
qed

lemma expected_nodes_split:
  assumes "0 < n"
  shows "map (expected_node w opts) [0..<n] =
     [expected_node w opts 0]
       @ map (loop_node (shared_bootstrap w opts) (bindHost_of (host_of opts))) [Suc 0..<n]"
proof -
  have eq: "map (expected_node w opts) [Suc 0..<n]
      = map (loop_node (shared_bootstrap w opts) (bindHost_of (host_of opts))) [Suc 0..<n]"
    by (rule map_cong) (auto simp: expected_node_def)
  have "map (expected_node w opts) [0..<n] =
     [expected_node w opts 0] @ map (expected_node w opts) [Suc 0..<n]"
    using assms by (simp add: upt_conv_Cons)
  then show ?thesis by (simp only: eq)
qed

lemma create_unfold:
  assumes "sz \<noteq> 0"
  shows "createStandardTestnet w (Some sz) (Some opts) =
     (case bootstrapped w 0 of
        Rejects \<Rightarrow> ([Construct (expected_node w opts 0)], Inl (Rejected (FullyBootstrapped 0)))
      | Never \<Rightarrow> ([Construct (expected_node w opts 0)], Inl (Unsettled (FullyBootstrapped 0)))
      | Resolved \<Rightarrow>
          (case spawn w sz (bindHost_of (host_of opts)) (shared_bootstrap w opts)
                  [expected_node w opts 0]
                  [Construct (expected_node w opts 0), FullyBootstrapped 0] of
             (tr, Inl e) \<Rightarrow> (tr, Inl e)
           | (tr, Inr swarm) \<Rightarrow>
               (if teardown_of opts
                then tr @ [Teardown \<lparr>nodes = swarm, tn_bootstrap = shared_bootstrap w opts\<rparr>]
                else tr,
                Inr \<lparr>nodes = swarm, tn_bootstrap = shared_bootstrap w opts\<rparr>)))"
  using assms
  by (simp add: createStandardTestnet_def Let_def expected_node_def shared_bootstrap_def
      split: settle.splits cong: if_cong sum.case_cong prod.case_cong)

lemma create_resolved:
  assumes sz: "1 \<le> sz" and res: "\<And>i. i < nat sz \<Longrightarrow> bootstrapped w i = Resolved"
  shows "createStandardTestnet w (Some sz) (Some opts) =
     (expected_trace w opts (nat sz)
        @ (if teardown_of opts then [Teardown (expected_testnet w opts (nat sz))] else []),
      Inr (expected_testnet w opts (nat sz)))"
proof -
  have nz: "sz \<noteq> 0" and pos: "0 < nat sz" using sz by auto
  have r0: "bootstrapped w 0 = Resolved" using res pos by simp
  have sp: "spawn w sz (bindHost_of (host_of opts)) (shared_bootstrap w opts)
              [expected_node w opts 0]
              [Construct (expected_node w opts 0), FullyBootstrapped 0]
            = (expected_trace w opts (nat sz), Inr (nodes (expected_testnet w opts (nat sz))))"
  proof -
    have a: "\<And>i. length [expected_node w opts 0] \<le> i \<Longrightarrow> int i < sz
            \<Longrightarrow> bootstrapped w i = Resolved"
      using res by simp
    show ?thesis
      using spawn_resolved [where swarm = "[expected_node w opts 0]" and sz = sz and w = w, OF a]
      by (simp add: expected_trace_split [OF pos] expected_nodes_split [OF pos]
          expected_testnet_def)
  qed
  show ?thesis
    by (simp add: create_unfold [OF nz] r0 sp expected_testnet_def)
qed

lemma create_Inr:
  assumes sz: "1 \<le> sz" and ret: "createStandardTestnet w (Some sz) (Some opts) = (tr, Inr t)"
  shows "t = expected_testnet w opts (nat sz)
       \<and> tr = expected_trace w opts (nat sz)
                @ (if teardown_of opts then [Teardown (expected_testnet w opts (nat sz))] else [])
       \<and> (\<forall>i. i < nat sz \<longrightarrow> bootstrapped w i = Resolved)"
proof -
  have nz: "sz \<noteq> 0" and pos: "0 < nat sz" using sz by auto
  from ret have r0: "bootstrapped w 0 = Resolved"
    by (simp add: create_unfold [OF nz] split: settle.splits)
  obtain tr' r where sp: "spawn w sz (bindHost_of (host_of opts)) (shared_bootstrap w opts)
              [expected_node w opts 0]
              [Construct (expected_node w opts 0), FullyBootstrapped 0] = (tr', r)"
    by (cases "spawn w sz (bindHost_of (host_of opts)) (shared_bootstrap w opts)
              [expected_node w opts 0]
              [Construct (expected_node w opts 0), FullyBootstrapped 0]")
  from ret r0 sp obtain swarm where r: "r = Inr swarm"
    by (cases r) (simp_all add: create_unfold [OF nz])
  from spawn_Inr [OF sp [unfolded r]]
  have tr': "tr' = expected_trace w opts (nat sz)"
    and sw: "swarm = map (expected_node w opts) [0..<nat sz]"
    and rs: "\<forall>i. Suc 0 \<le> i \<and> i < nat sz \<longrightarrow> bootstrapped w i = Resolved"
    by (simp_all add: expected_trace_split [OF pos] expected_nodes_split [OF pos])
  have all: "\<forall>i. i < nat sz \<longrightarrow> bootstrapped w i = Resolved"
  proof (intro allI impI)
    fix i assume "i < nat sz"
    then show "bootstrapped w i = Resolved" using r0 rs by (cases i) auto
  qed
  from ret r0 sp r tr' sw all show ?thesis
    by (auto simp: create_unfold [OF nz] expected_testnet_def split: if_splits)
qed

lemma create_prefix:
  assumes sz: "1 \<le> sz"
  shows "prefix (fst (createStandardTestnet w (Some sz) (Some opts)))
           (expected_trace w opts (nat sz) @ [Teardown (expected_testnet w opts (nat sz))])"
proof -
  have nz: "sz \<noteq> 0" and pos: "0 < nat sz" using sz by auto
  show ?thesis
  proof (cases "bootstrapped w 0")
    case Rejects
    then show ?thesis
      by (simp add: create_unfold [OF nz] expected_trace_split [OF pos])
  next
    case Never
    then show ?thesis
      by (simp add: create_unfold [OF nz] expected_trace_split [OF pos])
  next
    case Resolved
    obtain tr' r where sp: "spawn w sz (bindHost_of (host_of opts)) (shared_bootstrap w opts)
              [expected_node w opts 0]
              [Construct (expected_node w opts 0), FullyBootstrapped 0] = (tr', r)"
      by (cases "spawn w sz (bindHost_of (host_of opts)) (shared_bootstrap w opts)
              [expected_node w opts 0]
              [Construct (expected_node w opts 0), FullyBootstrapped 0]")
    show ?thesis
    proof (cases r)
      case (Inl e)
      have "prefix tr' (expected_trace w opts (nat sz))"
        using spawn_prefix [of "[Construct (expected_node w opts 0), FullyBootstrapped 0]"
            w sz "bindHost_of (host_of opts)" "shared_bootstrap w opts" "[expected_node w opts 0]"]
          sp
        by (simp add: expected_trace_split [OF pos])
      then show ?thesis using Resolved sp Inl
        by (simp add: create_unfold [OF nz])
    next
      case (Inr swarm)
      from spawn_Inr [OF sp [unfolded Inr]]
      have "tr' = expected_trace w opts (nat sz)"
        and "swarm = map (expected_node w opts) [0..<nat sz]"
        by (simp_all add: expected_trace_split [OF pos] expected_nodes_split [OF pos])
      then show ?thesis using Resolved sp Inr
        by (simp add: create_unfold [OF nz] expected_testnet_def)
    qed
  qed
qed

lemma length_pairs: "length (concat (map (\<lambda>i. [f i, g i]) [0..<n])) = 2 * n"
  by (induction n) simp_all

lemma nth_pairs:
  "j < 2 * n \<Longrightarrow>
     concat (map (\<lambda>i. [f i, g i]) [0..<n]) ! j = (if even j then f (j div 2) else g (j div 2))"
proof (induction n)
  case 0
  then show ?case by simp
next
  case (Suc n)
  show ?case
  proof (cases "j < 2 * n")
    case True
    with Suc.IH show ?thesis by (simp add: nth_append length_pairs)
  next
    case False
    with Suc.prems have "j = 2 * n \<or> j = Suc (2 * n)" by arith
    then show ?thesis by (auto simp: nth_append length_pairs)
  qed
qed

lemma length_expected_trace: "length (expected_trace w opts n) = 2 * n"
  by (simp add: expected_trace_def length_pairs)

lemma nth_expected_trace:
  "j < 2 * n \<Longrightarrow> expected_trace w opts n ! j =
     (if even j then Construct (expected_node w opts (j div 2)) else FullyBootstrapped (j div 2))"
  by (simp add: expected_trace_def nth_pairs)

lemma node_id_expected_node: "node_id (expected_node w opts i) = i"
  by (simp add: expected_node_def first_node_def loop_node_def)

lemma bootstrap_expected_node:
  "0 < i \<Longrightarrow> bootstrap (opts_of (expected_node w opts i)) = shared_bootstrap w opts"
  by (simp add: expected_node_def loop_node_def)

lemma spawn_bootstrapped_resolved:
  "FullyBootstrapped i \<in> set (fst (spawn w sz bh bs swarm tr))
     \<Longrightarrow> FullyBootstrapped i \<in> set tr \<or> bootstrapped w i = Resolved"
proof (induction w sz bh bs swarm tr rule: spawn.induct)
  case (1 w sz bh bs swarm tr)
  show ?case
  proof (cases "int (length swarm) < sz")
    case True
    show ?thesis
    proof (cases "bootstrapped w (length swarm)")
      case Resolved
      from "1.prems" True Resolved
      have "FullyBootstrapped i \<in> set (fst (spawn w sz bh bs
                (swarm @ [loop_node bs bh (length swarm)])
                (tr @ [Construct (loop_node bs bh (length swarm)),
                       FullyBootstrapped (length swarm)])))"
        by (subst (asm) spawn.simps) simp
      from "1.IH" [OF True Resolved this] Resolved show ?thesis by auto
    next
      case Rejects
      with "1.prems" True show ?thesis by (subst (asm) spawn.simps) simp
    next
      case Never
      with "1.prems" True show ?thesis by (subst (asm) spawn.simps) simp
    qed
  next
    case False
    with "1.prems" show ?thesis by (subst (asm) spawn.simps) simp
  qed
qed

lemma create_bootstrapped_resolved:
  assumes "FullyBootstrapped i \<in> set (fst (createStandardTestnet w (Some sz) (Some opts)))"
  shows "bootstrapped w i = Resolved"
proof (cases "sz = 0")
  case True
  with assms show ?thesis by (simp add: createStandardTestnet_def)
next
  case nz: False
  show ?thesis
  proof (cases "bootstrapped w 0")
    case Rejects
    with assms show ?thesis by (simp add: create_unfold [OF nz])
  next
    case Never
    with assms show ?thesis by (simp add: create_unfold [OF nz])
  next
    case Resolved
    obtain tr' r where sp: "spawn w sz (bindHost_of (host_of opts)) (shared_bootstrap w opts)
              [expected_node w opts 0]
              [Construct (expected_node w opts 0), FullyBootstrapped 0] = (tr', r)"
      by (cases "spawn w sz (bindHost_of (host_of opts)) (shared_bootstrap w opts)
              [expected_node w opts 0]
              [Construct (expected_node w opts 0), FullyBootstrapped 0]")
    from assms Resolved sp have "FullyBootstrapped i \<in> set tr'"
      by (cases r) (auto simp: create_unfold [OF nz] split: if_splits)
    then have "FullyBootstrapped i \<in> set (fst (spawn w sz (bindHost_of (host_of opts))
              (shared_bootstrap w opts) [expected_node w opts 0]
              [Construct (expected_node w opts 0), FullyBootstrapped 0]))"
      using sp by simp
    from spawn_bootstrapped_resolved [OF this] Resolved show ?thesis by auto
  qed
qed

lemma create_construct_preceded:
  assumes sz: "1 \<le> sz"
    and j: "j < length (fst (createStandardTestnet w (Some sz) (Some opts)))"
    and c: "fst (createStandardTestnet w (Some sz) (Some opts)) ! j = Construct n"
    and n: "0 < node_id n"
  shows "0 < j
       \<and> fst (createStandardTestnet w (Some sz) (Some opts)) ! (j - 1)
           = FullyBootstrapped (node_id n - 1)
       \<and> n = loop_node (shared_bootstrap w opts) (bindHost_of (host_of opts)) (node_id n)"
proof -
  let ?tr = "fst (createStandardTestnet w (Some sz) (Some opts))"
  let ?N = "nat sz"
  let ?ideal = "expected_trace w opts ?N @ [Teardown (expected_testnet w opts ?N)]"
  from create_prefix [OF sz] obtain zs where id: "?ideal = ?tr @ zs"
    by (auto simp: prefix_def)
  have nth: "\<And>k. k < length ?tr \<Longrightarrow> ?tr ! k = ?ideal ! k"
    by (simp add: id nth_append)
  have len: "length ?tr \<le> Suc (2 * ?N)"
  proof -
    have "length ?ideal = Suc (2 * ?N)" by (simp add: length_expected_trace)
    then show ?thesis by (simp add: id)
  qed
  have jlt: "j < 2 * ?N"
  proof (rule ccontr)
    assume "\<not> j < 2 * ?N"
    with j len have "j = 2 * ?N" by arith
    then have "?ideal ! j = Teardown (expected_testnet w opts ?N)"
      by (simp add: nth_append length_expected_trace)
    with nth [OF j] c show False by simp
  qed
  have cj: "Construct n = (if even j then Construct (expected_node w opts (j div 2))
                           else FullyBootstrapped (j div 2))"
    using nth [OF j] c jlt by (simp add: nth_append length_expected_trace nth_expected_trace)
  then have ev: "even j" and nn: "n = expected_node w opts (j div 2)"
    by (auto split: if_splits)
  from nn have idn: "node_id n = j div 2" by (simp add: node_id_expected_node)
  with n have j2: "2 \<le> j" by arith
  then have j1: "j - 1 < length ?tr" "j - 1 < 2 * ?N" "odd (j - 1)" using j jlt ev by auto
  have "(j - 1) div 2 = j div 2 - 1" using ev j2 by presburger
  then have "?tr ! (j - 1) = FullyBootstrapped (node_id n - 1)"
    using nth [OF j1(1)] j1 idn
    by (simp add: nth_append length_expected_trace nth_expected_trace)
  moreover have "n = loop_node (shared_bootstrap w opts) (bindHost_of (host_of opts)) (node_id n)"
    using nn idn n by (simp add: expected_node_def)
  ultimately show ?thesis using j2 by simp
qed

lemma create_defaults:
  "createStandardTestnet w sa oa =
     createStandardTestnet w (Some (case sa of None \<Rightarrow> 10 | Some n \<Rightarrow> n))
       (Some (case oa of None \<Rightarrow> default_opts | Some ob \<Rightarrow> ob))"
  by (simp add: createStandardTestnet_def default_opts_def split: option.splits)

lemma create_node_ids:
  assumes "createStandardTestnet w sa oa = (tr, Inr t)"
  shows "map node_id (nodes t) = [0..<length (nodes t)]"
proof -
  define sz where "sz = (case sa of None \<Rightarrow> (10::int) | Some n \<Rightarrow> n)"
  define opts where "opts = (case oa of None \<Rightarrow> default_opts | Some ob \<Rightarrow> ob)"
  from assms have ret: "createStandardTestnet w (Some sz) (Some opts) = (tr, Inr t)"
    by (subst (asm) create_defaults) (simp add: sz_def opts_def)
  consider "sz = 0" | "sz < 0" | "1 \<le> sz" by linarith
  then show ?thesis
  proof cases
    case 1
    with ret show ?thesis by (auto simp: createStandardTestnet_def)
  next
    case 2
    then have nz: "sz \<noteq> 0" by simp
    have sp: "\<And>bh bs swarm tr0. spawn w sz bh bs [swarm] tr0 = (tr0, Inr [swarm])"
      using 2 by (subst spawn.simps) simp
    from ret have "nodes t = [expected_node w opts 0]"
      by (auto simp: create_unfold [OF nz] sp split: settle.splits if_splits)
    then show ?thesis by (simp add: node_id_expected_node)
  next
    case 3
    from create_Inr [OF 3 ret] have "t = expected_testnet w opts (nat sz)" by simp
    then have "nodes t = map (expected_node w opts) [0..<nat sz]"
      by (simp add: expected_testnet_def)
    then show ?thesis by (simp add: node_id_expected_node map_idI)
  qed
qed

lemma example_create3:
  "createStandardTestnet example_world (Some 3) (Some example_opts)
     = ([Construct (first_node True [] 0 ''0.0.0.0''), FullyBootstrapped 0,
         Construct (loop_node [\<lparr>c_host = ''10.0.0.1'', c_port = 49737\<rparr>] ''0.0.0.0'' 1),
         FullyBootstrapped 1,
         Construct (loop_node [\<lparr>c_host = ''10.0.0.1'', c_port = 49737\<rparr>] ''0.0.0.0'' 2),
         FullyBootstrapped 2,
         Teardown \<lparr>nodes = [first_node True [] 0 ''0.0.0.0'',
                     loop_node [\<lparr>c_host = ''10.0.0.1'', c_port = 49737\<rparr>] ''0.0.0.0'' 1,
                     loop_node [\<lparr>c_host = ''10.0.0.1'', c_port = 49737\<rparr>] ''0.0.0.0'' 2],
                   tn_bootstrap = [\<lparr>c_host = ''10.0.0.1'', c_port = 49737\<rparr>]\<rparr>],
        Inr \<lparr>nodes = [first_node True [] 0 ''0.0.0.0'',
                     loop_node [\<lparr>c_host = ''10.0.0.1'', c_port = 49737\<rparr>] ''0.0.0.0'' 1,
                     loop_node [\<lparr>c_host = ''10.0.0.1'', c_port = 49737\<rparr>] ''0.0.0.0'' 2],
             tn_bootstrap = [\<lparr>c_host = ''10.0.0.1'', c_port = 49737\<rparr>]\<rparr>)"
  by (simp add: createStandardTestnet_def example_world_def example_opts_def teardown_of_def
      host_of_def port_of_def bootstrap_of_def bindHost_of_def includeRed25519_of_def
      spawn.simps Let_def numeral_2_eq_2)

lemma example_create2:
  "createStandardTestnet example_world (Some 2) (Some example_opts)
     = ([Construct (first_node True [] 0 ''0.0.0.0''), FullyBootstrapped 0,
         Construct (loop_node [\<lparr>c_host = ''10.0.0.1'', c_port = 49737\<rparr>] ''0.0.0.0'' 1),
         FullyBootstrapped 1,
         Teardown \<lparr>nodes = [first_node True [] 0 ''0.0.0.0'',
                     loop_node [\<lparr>c_host = ''10.0.0.1'', c_port = 49737\<rparr>] ''0.0.0.0'' 1],
                   tn_bootstrap = [\<lparr>c_host = ''10.0.0.1'', c_port = 49737\<rparr>]\<rparr>],
        Inr \<lparr>nodes = [first_node True [] 0 ''0.0.0.0'',
                     loop_node [\<lparr>c_host = ''10.0.0.1'', c_port = 49737\<rparr>] ''0.0.0.0'' 1],
             tn_bootstrap = [\<lparr>c_host = ''10.0.0.1'', c_port = 49737\<rparr>]\<rparr>)"
  by (simp add: createStandardTestnet_def example_world_def example_opts_def teardown_of_def
      host_of_def port_of_def bootstrap_of_def bindHost_of_def includeRed25519_of_def
      spawn.simps Let_def)

lemma example_create1_contacts:
  "createStandardTestnet example_world (Some 1) (Some example_opts_contacts)
     = ([Construct (first_node False [\<lparr>c_host = ''192.0.2.1'', c_port = 4001\<rparr>] 4000
                      ''127.0.0.1''),
         FullyBootstrapped 0],
        Inr \<lparr>nodes = [first_node False [\<lparr>c_host = ''192.0.2.1'', c_port = 4001\<rparr>] 4000
                        ''127.0.0.1''],
             tn_bootstrap = [\<lparr>c_host = ''192.0.2.1'', c_port = 4001\<rparr>]\<rparr>)"
  by (simp add: createStandardTestnet_def example_world_def example_opts_contacts_def
      teardown_of_def host_of_def port_of_def bootstrap_of_def bindHost_of_def
      includeRed25519_of_def spawn.simps Let_def)

lemma example_create1_wildcard:
  "createStandardTestnet example_world (Some 1) (Some example_opts_wildcard)
     = ([Construct (first_node False [] 0 ''0.0.0.0''), FullyBootstrapped 0],
        Inr \<lparr>nodes = [first_node False [] 0 ''0.0.0.0''],
             tn_bootstrap = [\<lparr>c_host = ''0.0.0.0'', c_port = 49737\<rparr>]\<rparr>)"
  by (simp add: createStandardTestnet_def example_world_def example_opts_wildcard_def
      teardown_of_def host_of_def port_of_def bootstrap_of_def bindHost_of_def
      includeRed25519_of_def spawn.simps Let_def)

section \<open>Properties of the teardown loops\<close>

lemma close_servers_resolved:
  "(\<And>s. s \<in> set ss \<Longrightarrow> closes w n s = Resolved)
     \<Longrightarrow> close_servers w n ss tr = (tr @ map (Closed n) ss, Inr ())"
  by (induction ss arbitrary: tr) simp_all

lemma close_servers_prefix:
  "prefix tr (fst (close_servers w n ss tr))
   \<and> prefix (fst (close_servers w n ss tr)) (tr @ map (Closed n) ss)"
proof (induction ss arbitrary: tr)
  case Nil
  show ?case by simp
next
  case (Cons s ss)
  show ?case
  proof (cases "closes w n s")
    case Resolved
    with Cons [of "tr @ [Closed n s]"] show ?thesis by (auto dest: append_prefixD)
  qed simp_all
qed

lemma close_servers_Inr:
  "close_servers w n ss tr = (tr', Inr u)
     \<Longrightarrow> tr' = tr @ map (Closed n) ss \<and> (\<forall>s \<in> set ss. closes w n s = Resolved)"
proof (induction ss arbitrary: tr)
  case Nil
  then show ?case by simp
next
  case (Cons s ss)
  show ?case
  proof (cases "closes w n s")
    case Resolved
    with Cons.prems have "close_servers w n ss (tr @ [Closed n s]) = (tr', Inr u)" by simp
    from Cons.IH [OF this] Resolved show ?thesis by simp
  next
    case Rejects
    with Cons.prems show ?thesis by simp
  next
    case Never
    with Cons.prems show ?thesis by simp
  qed
qed

lemma close_all_resolved:
  "(\<And>n s. n \<in> set ns \<Longrightarrow> s \<in> set (listening w (node_id n))
       \<Longrightarrow> closes w (node_id n) s = Resolved)
     \<Longrightarrow> close_all w ns tr = (tr @ close_events w ns, Inr ())"
proof (induction ns arbitrary: tr)
  case Nil
  show ?case by (simp add: close_events_def)
next
  case (Cons n ns)
  have 1: "close_servers w (node_id n) (listening w (node_id n)) tr
         = (tr @ map (Closed (node_id n)) (listening w (node_id n)), Inr ())"
    using Cons.prems by (intro close_servers_resolved) simp
  have 2: "close_all w ns (tr @ map (Closed (node_id n)) (listening w (node_id n)))
         = ((tr @ map (Closed (node_id n)) (listening w (node_id n))) @ close_events w ns, Inr ())"
    using Cons.prems by (intro Cons.IH) simp
  show ?case using 1 2 by (simp add: close_events_def)
qed

lemma close_all_Inr:
  "close_all w ns tr = (tr', Inr u)
     \<Longrightarrow> tr' = tr @ close_events w ns
       \<and> (\<forall>n \<in> set ns. \<forall>s \<in> set (listening w (node_id n)). closes w (node_id n) s = Resolved)"
proof (induction ns arbitrary: tr)
  case Nil
  then show ?case by (simp add: close_events_def)
next
  case (Cons n ns)
  obtain tr1 r1 where cs: "close_servers w (node_id n) (listening w (node_id n)) tr = (tr1, r1)"
    by (cases "close_servers w (node_id n) (listening w (node_id n)) tr")
  with Cons.prems obtain u1 where r1: "r1 = Inr u1" by (cases r1) auto
  from close_servers_Inr [OF cs [unfolded r1]]
  have tr1: "tr1 = tr @ map (Closed (node_id n)) (listening w (node_id n))"
    and res: "\<forall>s \<in> set (listening w (node_id n)). closes w (node_id n) s = Resolved"
    by simp_all
  from Cons.prems cs r1 have "close_all w ns tr1 = (tr', Inr u)" by simp
  from Cons.IH [OF this] tr1 res show ?case by (simp add: close_events_def)
qed

lemma close_all_prefix:
  "prefix tr (fst (close_all w ns tr))
   \<and> prefix (fst (close_all w ns tr)) (tr @ close_events w ns)"
proof (induction ns arbitrary: tr)
  case Nil
  show ?case by (simp add: close_events_def)
next
  case (Cons n ns)
  let ?cs = "map (Closed (node_id n)) (listening w (node_id n))"
  obtain tr1 r1 where cs: "close_servers w (node_id n) (listening w (node_id n)) tr = (tr1, r1)"
    by (cases "close_servers w (node_id n) (listening w (node_id n)) tr")
  from close_servers_prefix [of tr w "node_id n" "listening w (node_id n)"] cs
  have p1: "prefix tr tr1" and p2: "prefix tr1 (tr @ ?cs)" by simp_all
  show ?case
  proof (cases r1)
    case (Inl e1)
    from p2 have "prefix tr1 ((tr @ ?cs) @ close_events w ns)" by (rule prefix_prefix)
    with cs Inl p1 show ?thesis by (simp add: close_events_def)
  next
    case (Inr u1)
    from close_servers_Inr [OF cs [unfolded Inr]] have tr1: "tr1 = tr @ ?cs" by simp
    from Cons.IH [of tr1] cs Inr tr1 show ?thesis
      by (auto simp: close_events_def dest: append_prefixD)
  qed
qed

lemma rev_take_Suc:
  "i < length ns \<Longrightarrow> rev (take (Suc i) ns) = ns ! i # rev (take i ns)"
  by (simp add: take_Suc_conv_app_nth)

lemma destroy_down_resolved:
  "k \<le> length ns \<Longrightarrow> (\<And>n. n \<in> set ns \<Longrightarrow> destroys w (node_id n) = Resolved)
     \<Longrightarrow> destroy_down w ns k tr = (tr @ destroy_events (take k ns), Inr ())"
proof (induction k arbitrary: tr)
  case 0
  show ?case by (simp add: destroy_events_def)
next
  case (Suc i)
  then have i: "i < length ns" by simp
  then have "destroys w (node_id (ns ! i)) = Resolved" using Suc.prems(2) by simp
  moreover have "destroy_down w ns i (tr @ [Destroyed (node_id (ns ! i))])
      = ((tr @ [Destroyed (node_id (ns ! i))]) @ destroy_events (take i ns), Inr ())"
    using Suc.prems i by (intro Suc.IH) simp_all
  ultimately show ?case using i by (simp add: destroy_events_def rev_take_Suc)
qed

lemma destroy_down_prefix:
  "k \<le> length ns \<Longrightarrow>
     prefix tr (fst (destroy_down w ns k tr))
     \<and> prefix (fst (destroy_down w ns k tr)) (tr @ destroy_events (take k ns))"
proof (induction k arbitrary: tr)
  case 0
  show ?case by (simp add: destroy_events_def)
next
  case (Suc i)
  then have i: "i < length ns" and le: "i \<le> length ns" by simp_all
  show ?case
  proof (cases "destroys w (node_id (ns ! i))")
    case Resolved
    from Suc.IH [OF le, of "tr @ [Destroyed (node_id (ns ! i))]"] Resolved i show ?thesis
      by (auto simp: destroy_events_def rev_take_Suc dest: append_prefixD)
  qed simp_all
qed

lemma destroy_down_Inr:
  "k \<le> length ns \<Longrightarrow> destroy_down w ns k tr = (tr', Inr u)
     \<Longrightarrow> tr' = tr @ destroy_events (take k ns)
       \<and> (\<forall>n \<in> set (take k ns). destroys w (node_id n) = Resolved)"
proof (induction k arbitrary: tr)
  case 0
  then show ?case by (simp add: destroy_events_def)
next
  case (Suc i)
  then have i: "i < length ns" and le: "i \<le> length ns" by simp_all
  show ?case
  proof (cases "destroys w (node_id (ns ! i))")
    case Resolved
    with Suc.prems have "destroy_down w ns i (tr @ [Destroyed (node_id (ns ! i))]) = (tr', Inr u)"
      by simp
    from Suc.IH [OF le this] Resolved i show ?thesis
      by (auto simp: destroy_events_def rev_take_Suc take_Suc_conv_app_nth)
  next
    case Rejects
    with Suc.prems show ?thesis by simp
  next
    case Never
    with Suc.prems show ?thesis by simp
  qed
qed

lemma no_Destroyed_close_events: "Destroyed i \<notin> set (close_events w ns)"
  by (auto simp: close_events_def)

lemma destroy_resolved:
  assumes "\<And>n s. n \<in> set (nodes t) \<Longrightarrow> s \<in> set (listening w (node_id n))
             \<Longrightarrow> closes w (node_id n) s = Resolved"
    and "\<And>n. n \<in> set (nodes t) \<Longrightarrow> destroys w (node_id n) = Resolved"
  shows "destroy w t = (close_events w (nodes t) @ destroy_events (nodes t), Inr ())"
proof -
  have 1: "close_all w (nodes t) [] = ([] @ close_events w (nodes t), Inr ())"
    using assms(1) by (intro close_all_resolved) simp
  have 2: "destroy_down w (nodes t) (length (nodes t)) (close_events w (nodes t))
         = (close_events w (nodes t) @ destroy_events (take (length (nodes t)) (nodes t)), Inr ())"
    using assms(2) by (intro destroy_down_resolved) simp_all
  show ?thesis using 1 2 by (simp add: destroy_def)
qed

lemma destroy_prefix:
  "prefix (fst (destroy w t)) (close_events w (nodes t) @ destroy_events (nodes t))"
proof -
  obtain tr1 r1 where ca: "close_all w (nodes t) [] = (tr1, r1)"
    by (cases "close_all w (nodes t) []")
  from close_all_prefix [of "[]" w "nodes t"] ca
  have p: "prefix tr1 (close_events w (nodes t))" by simp
  show ?thesis
  proof (cases r1)
    case (Inl e)
    with ca p show ?thesis by (simp add: destroy_def)
  next
    case (Inr u)
    from close_all_Inr [OF ca [unfolded Inr]] have tr1: "tr1 = close_events w (nodes t)" by simp
    from destroy_down_prefix [of "length (nodes t)" "nodes t" tr1 w] ca Inr tr1
    show ?thesis by (simp add: destroy_def)
  qed
qed

lemma destroy_closes_first:
  assumes "Destroyed i \<in> set (fst (destroy w t))"
  shows "prefix (close_events w (nodes t)) (fst (destroy w t))
       \<and> (\<forall>n \<in> set (nodes t). \<forall>s \<in> set (listening w (node_id n)).
            closes w (node_id n) s = Resolved)"
proof -
  obtain tr1 r1 where ca: "close_all w (nodes t) [] = (tr1, r1)"
    by (cases "close_all w (nodes t) []")
  from close_all_prefix [of "[]" w "nodes t"] ca
  have p: "prefix tr1 (close_events w (nodes t))" by simp
  show ?thesis
  proof (cases r1)
    case (Inl e)
    with ca assms have "Destroyed i \<in> set tr1" by (simp add: destroy_def)
    with p have "Destroyed i \<in> set (close_events w (nodes t))"
      using set_mono_prefix by blast
    then show ?thesis by (simp add: no_Destroyed_close_events)
  next
    case (Inr u)
    from close_all_Inr [OF ca [unfolded Inr]]
    have tr1: "tr1 = close_events w (nodes t)"
      and res: "\<forall>n \<in> set (nodes t). \<forall>s \<in> set (listening w (node_id n)).
            closes w (node_id n) s = Resolved"
      by simp_all
    from destroy_down_prefix [of "length (nodes t)" "nodes t" tr1 w] ca Inr tr1
    have "prefix (close_events w (nodes t)) (fst (destroy w t))" by (simp add: destroy_def)
    with res show ?thesis by simp
  qed
qed

lemma destroy_events_ids:
  "map node_id ns = [0..<length ns] \<Longrightarrow> destroy_events ns = map Destroyed (rev [0..<length ns])"
proof -
  assume a: "map node_id ns = [0..<length ns]"
  have "destroy_events ns = map Destroyed (rev (map node_id ns))"
    by (simp add: destroy_events_def rev_map)
  with a show ?thesis by simp
qed

lemma example_destroy:
  "destroy example_world example_testnet
     = ([Closed 1 7, Closed 1 8, Closed 2 9, Destroyed 2, Destroyed 1, Destroyed 0], Inr ())"
  by (simp add: destroy_def example_testnet_def example_world_def first_node_def loop_node_def
      numeral_2_eq_2)

section \<open>Claims about the creation of the test network\<close>

text \<open>
  Claim C8. Calling the creation with size 0 returns a testnet whose node list is empty;
  the trace is empty, so no node was constructed and nothing was awaited.
\<close>

theorem createStandardTestnet_empty:
  "\<exists>t. createStandardTestnet w (Some 0) opts_arg = ([], Inr t) \<and> nodes t = []"
  by (simp add: createStandardTestnet_def)

text \<open>
  Claim C10. With size 0 the returned testnet's bootstrap list is empty whatever the
  options hold, bootstrap contacts included, and the trace has no call of a teardown
  hook, whether or not the caller supplied one.
\<close>

theorem size_zero_no_bootstrap_no_teardown:
  "\<exists>t. snd (createStandardTestnet w (Some 0) opts_arg) = Inr t \<and> tn_bootstrap t = []
       \<and> (\<forall>t'. Teardown t' \<notin> set (fst (createStandardTestnet w (Some 0) opts_arg)))"
  by (simp add: createStandardTestnet_def)

text \<open>
  Claim C5, as stated: with no bootstrap contacts supplied, the bootstrap list of the
  returned testnet is the single entry made of the seed node's bound host and port.
  The statement fails for a requested host other than 127.0.0.1: the seed is then bound
  to 0.0.0.0, while the entry carries the requested host. Here the host is 10.0.0.1.
\<close>

theorem seed_bound_host_counterexample:
  "snd (createStandardTestnet example_world (Some 1) (Some example_opts))
     = Inr \<lparr>nodes = [\<lparr>node_id = 0, backend_of = Red25519,
                       opts_of = \<lparr>ephemeral = False, firewalled = False, bootstrap = [],
                                  port = Some 0, host = ''0.0.0.0''\<rparr>\<rparr>],
            tn_bootstrap = [\<lparr>c_host = ''10.0.0.1'', c_port = 49737\<rparr>]\<rparr>
   \<and> bootstrap_of example_opts = []
   \<and> address_port example_world 0 = 49737
   \<and> [\<lparr>c_host = ''10.0.0.1'', c_port = 49737\<rparr>]
       \<noteq> [\<lparr>c_host = host \<lparr>ephemeral = False, firewalled = False, bootstrap = [],
                               port = Some 0, host = ''0.0.0.0''\<rparr>,
            c_port = 49737\<rparr>]"
  by (simp add: createStandardTestnet_def example_world_def example_opts_def teardown_of_def
      host_of_def port_of_def bootstrap_of_def bindHost_of_def includeRed25519_of_def
      first_node_def spawn.simps Let_def)

text \<open>
  Claim C5, amended. For a size of at least 1 the creation returns a testnet exactly when
  the bootstrap signal of the seed and of every later node resolves. Whenever it
  returns: if the caller supplied no bootstrap contacts (no list, or an empty one), the
  bootstrap list is exactly one entry, made of the requested host (\<open>opts.host\<close>,
  127.0.0.1 by default) and the port the seed is bound to; if the caller supplied
  contacts, the list is the caller's, and the seed's address is not added. The seed is
  bound to 127.0.0.1 if that is the requested host and to 0.0.0.0 otherwise, so the
  requested host is the seed's bind host exactly when it is 127.0.0.1 or 0.0.0.0.
\<close>

theorem createStandardTestnet_bootstrap:
  assumes sz: "1 \<le> sz"
  shows "(\<forall>tr t. createStandardTestnet w (Some sz) (Some opts) = (tr, Inr t) \<longrightarrow>
            bootstrapped w 0 = Resolved
          \<and> (bootstrap_of opts = [] \<longrightarrow>
               tn_bootstrap t = [\<lparr>c_host = host_of opts, c_port = address_port w 0\<rparr>])
          \<and> (bootstrap_of opts \<noteq> [] \<longrightarrow> tn_bootstrap t = bootstrap_of opts)
          \<and> host (opts_of (hd (nodes t))) = bindHost_of (host_of opts)
          \<and> ((host (opts_of (hd (nodes t))) = host_of opts)
               = (host_of opts = ''127.0.0.1'' \<or> host_of opts = ''0.0.0.0'')))
       \<and> ((\<forall>i. i < nat sz \<longrightarrow> bootstrapped w i = Resolved)
            = (\<exists>tr t. createStandardTestnet w (Some sz) (Some opts) = (tr, Inr t)))"
proof -
  have pos: "0 < nat sz" using sz by simp
  have hd0: "hd (nodes (expected_testnet w opts (nat sz))) = expected_node w opts 0"
    using pos by (simp add: expected_testnet_def expected_nodes_split [OF pos])
  have h: "host (opts_of (expected_node w opts 0)) = bindHost_of (host_of opts)"
    by (simp add: expected_node_def first_node_def)
  have a: "\<forall>tr t. createStandardTestnet w (Some sz) (Some opts) = (tr, Inr t) \<longrightarrow>
            bootstrapped w 0 = Resolved
          \<and> (bootstrap_of opts = [] \<longrightarrow>
               tn_bootstrap t = [\<lparr>c_host = host_of opts, c_port = address_port w 0\<rparr>])
          \<and> (bootstrap_of opts \<noteq> [] \<longrightarrow> tn_bootstrap t = bootstrap_of opts)
          \<and> host (opts_of (hd (nodes t))) = bindHost_of (host_of opts)
          \<and> ((host (opts_of (hd (nodes t))) = host_of opts)
               = (host_of opts = ''127.0.0.1'' \<or> host_of opts = ''0.0.0.0''))"
  proof (intro allI impI)
    fix tr t
    assume ret: "createStandardTestnet w (Some sz) (Some opts) = (tr, Inr t)"
    from create_Inr [OF sz ret]
    have t: "t = expected_testnet w opts (nat sz)"
      and r: "\<forall>i. i < nat sz \<longrightarrow> bootstrapped w i = Resolved"
      by simp_all
    have tb: "tn_bootstrap t = shared_bootstrap w opts" by (simp add: t expected_testnet_def)
    from r pos have r0: "bootstrapped w 0 = Resolved" by simp
    show "bootstrapped w 0 = Resolved
          \<and> (bootstrap_of opts = [] \<longrightarrow>
               tn_bootstrap t = [\<lparr>c_host = host_of opts, c_port = address_port w 0\<rparr>])
          \<and> (bootstrap_of opts \<noteq> [] \<longrightarrow> tn_bootstrap t = bootstrap_of opts)
          \<and> host (opts_of (hd (nodes t))) = bindHost_of (host_of opts)
          \<and> ((host (opts_of (hd (nodes t))) = host_of opts)
               = (host_of opts = ''127.0.0.1'' \<or> host_of opts = ''0.0.0.0''))"
      using r0 tb hd0 h by (auto simp: t shared_bootstrap_def bindHost_of_def)
  qed
  have b: "(\<forall>i. i < nat sz \<longrightarrow> bootstrapped w i = Resolved)
            = (\<exists>tr t. createStandardTestnet w (Some sz) (Some opts) = (tr, Inr t))"
  proof
    assume "\<forall>i. i < nat sz \<longrightarrow> bootstrapped w i = Resolved"
    then have "\<And>i. i < nat sz \<Longrightarrow> bootstrapped w i = Resolved" by simp
    from create_resolved [OF sz this] show
      "\<exists>tr t. createStandardTestnet w (Some sz) (Some opts) = (tr, Inr t)" by blast
  next
    assume "\<exists>tr t. createStandardTestnet w (Some sz) (Some opts) = (tr, Inr t)"
    then obtain tr t where "createStandardTestnet w (Some sz) (Some opts) = (tr, Inr t)"
      by blast
    from create_Inr [OF sz this]
    show "\<forall>i. i < nat sz \<longrightarrow> bootstrapped w i = Resolved" by simp
  qed
  from a b show ?thesis by (rule conjI)
qed

theorem createStandardTestnet_bootstrap_witness:
  "(1::int) \<le> 2
   \<and> snd (createStandardTestnet example_world (Some 2) (Some example_opts))
       = Inr \<lparr>nodes = [first_node True [] 0 ''0.0.0.0'',
                       loop_node [\<lparr>c_host = ''10.0.0.1'', c_port = 49737\<rparr>] ''0.0.0.0'' 1],
              tn_bootstrap = [\<lparr>c_host = host_of example_opts,
                               c_port = address_port example_world 0\<rparr>]\<rparr>
   \<and> bootstrap_of example_opts = []
   \<and> host_of example_opts = ''10.0.0.1''
   \<and> address_port example_world 0 = 49737
   \<and> snd (createStandardTestnet example_world (Some 1) (Some example_opts_contacts))
       = Inr \<lparr>nodes = [first_node False [\<lparr>c_host = ''192.0.2.1'', c_port = 4001\<rparr>] 4000
                          ''127.0.0.1''],
              tn_bootstrap = bootstrap_of example_opts_contacts\<rparr>
   \<and> bootstrap_of example_opts_contacts = [\<lparr>c_host = ''192.0.2.1'', c_port = 4001\<rparr>]
   \<and> snd (createStandardTestnet example_world (Some 1) (Some example_opts_wildcard))
       = Inr \<lparr>nodes = [first_node False [] 0 ''0.0.0.0''],
              tn_bootstrap = [\<lparr>c_host = ''0.0.0.0'', c_port = 49737\<rparr>]\<rparr>
   \<and> host (opts_of (first_node False [] 0 ''0.0.0.0'')) = host_of example_opts_wildcard"
proof -
  let ?t2 = "\<lparr>nodes = [first_node True [] 0 ''0.0.0.0'',
                       loop_node [\<lparr>c_host = ''10.0.0.1'', c_port = 49737\<rparr>] ''0.0.0.0'' 1],
              tn_bootstrap = [\<lparr>c_host = ''10.0.0.1'', c_port = 49737\<rparr>]\<rparr>"
  let ?t1 = "\<lparr>nodes = [first_node False [\<lparr>c_host = ''192.0.2.1'', c_port = 4001\<rparr>] 4000
                          ''127.0.0.1''],
              tn_bootstrap = [\<lparr>c_host = ''192.0.2.1'', c_port = 4001\<rparr>]\<rparr>"
  have s2: "(1::int) \<le> 2" and s1: "(1::int) \<le> 1" by simp_all
  have b: "bootstrap_of example_opts = []" "host_of example_opts = ''10.0.0.1''"
    "address_port example_world 0 = 49737"
    by (simp_all add: bootstrap_of_def host_of_def example_opts_def example_world_def)
  have bc: "bootstrap_of example_opts_contacts = [\<lparr>c_host = ''192.0.2.1'', c_port = 4001\<rparr>]"
    by (simp add: bootstrap_of_def example_opts_contacts_def)
  from createStandardTestnet_bootstrap [OF s2, of example_world example_opts] example_create2 b(1)
  have e2: "tn_bootstrap ?t2
      = [\<lparr>c_host = host_of example_opts, c_port = address_port example_world 0\<rparr>]"
    by blast
  from bc have ne: "bootstrap_of example_opts_contacts \<noteq> []" by simp
  from createStandardTestnet_bootstrap [OF s1, of example_world example_opts_contacts]
    example_create1_contacts ne
  have e1: "tn_bootstrap ?t1 = bootstrap_of example_opts_contacts"
    by blast
  have c2: "snd (createStandardTestnet example_world (Some 2) (Some example_opts))
       = Inr \<lparr>nodes = [first_node True [] 0 ''0.0.0.0'',
                       loop_node [\<lparr>c_host = ''10.0.0.1'', c_port = 49737\<rparr>] ''0.0.0.0'' 1],
              tn_bootstrap = [\<lparr>c_host = host_of example_opts,
                               c_port = address_port example_world 0\<rparr>]\<rparr>"
    using e2 by (simp add: example_create2)
  have c1: "snd (createStandardTestnet example_world (Some 1) (Some example_opts_contacts))
       = Inr \<lparr>nodes = [first_node False [\<lparr>c_host = ''192.0.2.1'', c_port = 4001\<rparr>] 4000
                          ''127.0.0.1''],
              tn_bootstrap = bootstrap_of example_opts_contacts\<rparr>"
    using e1 by (simp add: example_create1_contacts)
  have hw: "host_of example_opts_wildcard = ''0.0.0.0''"
    by (simp add: host_of_def example_opts_wildcard_def)
  from createStandardTestnet_bootstrap [OF s1, of example_world example_opts_wildcard]
    example_create1_wildcard hw
  have "host (opts_of (hd (nodes \<lparr>nodes = [first_node False [] 0 ''0.0.0.0''],
             tn_bootstrap = [\<lparr>c_host = ''0.0.0.0'', c_port = 49737\<rparr>]\<rparr>)))
     = host_of example_opts_wildcard"
    by blast
  then have w1: "host (opts_of (first_node False [] 0 ''0.0.0.0''))
      = host_of example_opts_wildcard"
    by simp
  have w0: "snd (createStandardTestnet example_world (Some 1) (Some example_opts_wildcard))
       = Inr \<lparr>nodes = [first_node False [] 0 ''0.0.0.0''],
              tn_bootstrap = [\<lparr>c_host = ''0.0.0.0'', c_port = 49737\<rparr>]\<rparr>"
    by (simp add: example_create1_wildcard)
  from s2 c2 b c1 bc w0 w1 show ?thesis by (intro conjI)
qed

text \<open>
  Claim C6. For a size of at least 2, the nodes after the seed are created one after the
  other: in the trace of the creation, whatever the outcome, the constructor call of a
  node with creation index \<open>i + 1\<close> comes directly after the resolution of node
  \<open>i\<close>'s bootstrap signal, that signal has resolved, and the node is a standard node
  given the shared bootstrap list, which is also the bootstrap list of the returned
  testnet. The trace is a prefix of the alternation of constructor calls and resolved
  signals in creation order; when all signals resolve it is the whole alternation,
  followed by the teardown hook's call if there is a hook, and the testnet has as many
  nodes as the size asks for.
\<close>

theorem createStandardTestnet_sequential:
  assumes sz: "2 \<le> sz"
  shows "(\<forall>j n. j < length (fst (createStandardTestnet w (Some sz) (Some opts)))
              \<and> fst (createStandardTestnet w (Some sz) (Some opts)) ! j = Construct n
              \<and> 0 < node_id n \<longrightarrow>
            0 < j
          \<and> fst (createStandardTestnet w (Some sz) (Some opts)) ! (j - 1)
              = FullyBootstrapped (node_id n - 1)
          \<and> bootstrapped w (node_id n - 1) = Resolved
          \<and> backend_of n = Standard
          \<and> bootstrap (opts_of n) = shared_bootstrap w opts)
       \<and> prefix (fst (createStandardTestnet w (Some sz) (Some opts)))
            (expected_trace w opts (nat sz) @ [Teardown (expected_testnet w opts (nat sz))])
       \<and> ((\<forall>i. i < nat sz \<longrightarrow> bootstrapped w i = Resolved) \<longrightarrow>
            createStandardTestnet w (Some sz) (Some opts)
              = (expected_trace w opts (nat sz)
                   @ (if teardown_of opts then [Teardown (expected_testnet w opts (nat sz))]
                      else []),
                 Inr (expected_testnet w opts (nat sz))))
       \<and> length (nodes (expected_testnet w opts (nat sz))) = nat sz
       \<and> tn_bootstrap (expected_testnet w opts (nat sz)) = shared_bootstrap w opts"
proof -
  let ?tr = "fst (createStandardTestnet w (Some sz) (Some opts))"
  have one: "1 \<le> sz" using sz by simp
  have a: "\<forall>j n. j < length ?tr \<and> ?tr ! j = Construct n \<and> 0 < node_id n \<longrightarrow>
            0 < j
          \<and> ?tr ! (j - 1) = FullyBootstrapped (node_id n - 1)
          \<and> bootstrapped w (node_id n - 1) = Resolved
          \<and> backend_of n = Standard
          \<and> bootstrap (opts_of n) = shared_bootstrap w opts"
  proof (intro allI impI)
    fix j n
    assume h: "j < length ?tr \<and> ?tr ! j = Construct n \<and> 0 < node_id n"
    then have j: "j < length ?tr" and c: "?tr ! j = Construct n" and n: "0 < node_id n"
      by simp_all
    from create_construct_preceded [OF one j c n]
    have j0: "0 < j" and p: "?tr ! (j - 1) = FullyBootstrapped (node_id n - 1)"
      and nn: "n = loop_node (shared_bootstrap w opts) (bindHost_of (host_of opts)) (node_id n)"
      by simp_all
    from j j0 have "j - 1 < length ?tr" by simp
    then have "?tr ! (j - 1) \<in> set ?tr" by (rule nth_mem)
    with p have "FullyBootstrapped (node_id n - 1) \<in> set ?tr" by simp
    then have r: "bootstrapped w (node_id n - 1) = Resolved"
      by (rule create_bootstrapped_resolved)
    have "backend_of n = Standard" "bootstrap (opts_of n) = shared_bootstrap w opts"
      by (subst nn, simp add: loop_node_def)+
    with j0 p r show "0 < j
          \<and> ?tr ! (j - 1) = FullyBootstrapped (node_id n - 1)
          \<and> bootstrapped w (node_id n - 1) = Resolved
          \<and> backend_of n = Standard
          \<and> bootstrap (opts_of n) = shared_bootstrap w opts"
      by simp
  qed
  have b: "prefix ?tr
            (expected_trace w opts (nat sz) @ [Teardown (expected_testnet w opts (nat sz))])"
    by (rule create_prefix [OF one])
  have c: "(\<forall>i. i < nat sz \<longrightarrow> bootstrapped w i = Resolved) \<longrightarrow>
            createStandardTestnet w (Some sz) (Some opts)
              = (expected_trace w opts (nat sz)
                   @ (if teardown_of opts then [Teardown (expected_testnet w opts (nat sz))]
                      else []),
                 Inr (expected_testnet w opts (nat sz)))"
  proof
    assume "\<forall>i. i < nat sz \<longrightarrow> bootstrapped w i = Resolved"
    then have "\<And>i. i < nat sz \<Longrightarrow> bootstrapped w i = Resolved" by simp
    from create_resolved [OF one this] show "createStandardTestnet w (Some sz) (Some opts)
              = (expected_trace w opts (nat sz)
                   @ (if teardown_of opts then [Teardown (expected_testnet w opts (nat sz))]
                      else []),
                 Inr (expected_testnet w opts (nat sz)))" .
  qed
  have d: "length (nodes (expected_testnet w opts (nat sz))) = nat sz"
    "tn_bootstrap (expected_testnet w opts (nat sz)) = shared_bootstrap w opts"
    by (simp_all add: expected_testnet_def)
  from a b c d show ?thesis by blast
qed

theorem createStandardTestnet_sequential_witness:
  "(2::int) \<le> 3
   \<and> bootstrapped example_world 0 = Resolved
   \<and> bootstrapped example_world 1 = Resolved
   \<and> bootstrapped example_world 2 = Resolved
   \<and> createStandardTestnet example_world (Some 3) (Some example_opts)
       = (expected_trace example_world example_opts (nat 3)
            @ [Teardown (expected_testnet example_world example_opts (nat 3))],
          Inr (expected_testnet example_world example_opts (nat 3)))
   \<and> expected_testnet example_world example_opts (nat 3) = example_testnet
   \<and> expected_trace example_world example_opts (nat 3)
       = [Construct (first_node True [] 0 ''0.0.0.0''), FullyBootstrapped 0,
          Construct (loop_node [\<lparr>c_host = ''10.0.0.1'', c_port = 49737\<rparr>] ''0.0.0.0'' 1),
          FullyBootstrapped 1,
          Construct (loop_node [\<lparr>c_host = ''10.0.0.1'', c_port = 49737\<rparr>] ''0.0.0.0'' 2),
          FullyBootstrapped 2]
   \<and> fst (createStandardTestnet example_world (Some 3) (Some example_opts)) ! 4
       = Construct (loop_node [\<lparr>c_host = ''10.0.0.1'', c_port = 49737\<rparr>] ''0.0.0.0'' 2)
   \<and> fst (createStandardTestnet example_world (Some 3) (Some example_opts)) ! (4 - 1)
       = FullyBootstrapped (2 - 1)
   \<and> shared_bootstrap example_world example_opts = [\<lparr>c_host = ''10.0.0.1'', c_port = 49737\<rparr>]"
proof -
  let ?n = "loop_node [\<lparr>c_host = ''10.0.0.1'', c_port = 49737\<rparr>] ''0.0.0.0'' 2"
  let ?c = "createStandardTestnet example_world (Some 3) (Some example_opts)"
  note t = createStandardTestnet_sequential [of 3 example_world example_opts]
  have s: "(2::int) \<le> 3" by simp
  have r: "\<forall>i. i < nat 3 \<longrightarrow> bootstrapped example_world i = Resolved"
    by (simp add: example_world_def)
  have td: "teardown_of example_opts" by (simp add: teardown_of_def example_opts_def)
  from t [OF s] r td have full: "?c
       = (expected_trace example_world example_opts (nat 3)
            @ [Teardown (expected_testnet example_world example_opts (nat 3))],
          Inr (expected_testnet example_world example_opts (nat 3)))"
    by simp
  from full have et: "expected_testnet example_world example_opts (nat 3) = example_testnet"
    by (simp add: example_create3 example_testnet_def)
  from full have etr: "expected_trace example_world example_opts (nat 3)
       = [Construct (first_node True [] 0 ''0.0.0.0''), FullyBootstrapped 0,
          Construct (loop_node [\<lparr>c_host = ''10.0.0.1'', c_port = 49737\<rparr>] ''0.0.0.0'' 1),
          FullyBootstrapped 1,
          Construct ?n,
          FullyBootstrapped 2]"
    by (simp add: example_create3)
  have n: "node_id ?n = 2" by (simp add: loop_node_def)
  have c: "fst ?c ! 4 = Construct ?n" "length (fst ?c) = 7"
    by (simp_all add: example_create3)
  from t [OF s]
  have "4 < length (fst ?c) \<and> fst ?c ! 4 = Construct ?n \<and> 0 < node_id ?n \<longrightarrow>
          fst ?c ! (4 - 1) = FullyBootstrapped (node_id ?n - 1)
          \<and> bootstrap (opts_of ?n) = shared_bootstrap example_world example_opts"
    by blast
  with c n have p: "fst ?c ! (4 - 1) = FullyBootstrapped (2 - 1)"
    and sb: "shared_bootstrap example_world example_opts
              = [\<lparr>c_host = ''10.0.0.1'', c_port = 49737\<rparr>]"
    by (simp_all add: loop_node_def)
  have r3: "bootstrapped example_world 0 = Resolved" "bootstrapped example_world 1 = Resolved"
    "bootstrapped example_world 2 = Resolved"
    by (simp_all add: example_world_def)
  from s r3 full et etr c(1) p sb show ?thesis by (intro conjI)
qed

section \<open>Claims about the teardown\<close>

text \<open>
  Claim C7. For every testnet, \<open>destroy\<close> closes the listening servers of every node,
  node by node in list order, and only then destroys the nodes in reverse list order:
  its trace is always a prefix of the closes followed by the destroys, no node is
  destroyed unless every server of every node has been closed, and when every awaited
  close and destroy resolves the trace is all closes followed by all destroys. For a
  testnet returned by the creation, list order is creation order, so the last-created
  node is destroyed first and the seed last.
\<close>

theorem destroy_order:
  "prefix (fst (destroy w t)) (close_events w (nodes t) @ destroy_events (nodes t))
   \<and> ((\<exists>i. Destroyed i \<in> set (fst (destroy w t))) \<longrightarrow>
        prefix (close_events w (nodes t)) (fst (destroy w t))
      \<and> (\<forall>n \<in> set (nodes t). \<forall>s \<in> set (listening w (node_id n)).
            closes w (node_id n) s = Resolved))
   \<and> ((\<forall>n \<in> set (nodes t). \<forall>s \<in> set (listening w (node_id n)).
            closes w (node_id n) s = Resolved)
       \<and> (\<forall>n \<in> set (nodes t). destroys w (node_id n) = Resolved) \<longrightarrow>
        destroy w t = (close_events w (nodes t) @ destroy_events (nodes t), Inr ()))
   \<and> ((\<exists>sa oa tr. createStandardTestnet w sa oa = (tr, Inr t)) \<longrightarrow>
        map node_id (nodes t) = [0..<length (nodes t)]
      \<and> destroy_events (nodes t) = map Destroyed (rev [0..<length (nodes t)]))"
proof -
  have a: "prefix (fst (destroy w t)) (close_events w (nodes t) @ destroy_events (nodes t))"
    by (rule destroy_prefix)
  have b: "(\<exists>i. Destroyed i \<in> set (fst (destroy w t))) \<longrightarrow>
        prefix (close_events w (nodes t)) (fst (destroy w t))
      \<and> (\<forall>n \<in> set (nodes t). \<forall>s \<in> set (listening w (node_id n)).
            closes w (node_id n) s = Resolved)"
    using destroy_closes_first by blast
  have c: "(\<forall>n \<in> set (nodes t). \<forall>s \<in> set (listening w (node_id n)).
            closes w (node_id n) s = Resolved)
       \<and> (\<forall>n \<in> set (nodes t). destroys w (node_id n) = Resolved) \<longrightarrow>
        destroy w t = (close_events w (nodes t) @ destroy_events (nodes t), Inr ())"
    using destroy_resolved [of t w] by blast
  have d: "(\<exists>sa oa tr. createStandardTestnet w sa oa = (tr, Inr t)) \<longrightarrow>
        map node_id (nodes t) = [0..<length (nodes t)]
      \<and> destroy_events (nodes t) = map Destroyed (rev [0..<length (nodes t)])"
    using create_node_ids destroy_events_ids by blast
  from a b c d show ?thesis by blast
qed

theorem destroy_order_witness:
  "createStandardTestnet example_world (Some 3) (Some example_opts)
     = (fst (createStandardTestnet example_world (Some 3) (Some example_opts)),
        Inr example_testnet)
   \<and> map node_id (nodes example_testnet) = [0, 1, 2]
   \<and> listening example_world 0 = []
   \<and> listening example_world 1 = [7, 8]
   \<and> listening example_world 2 = [9]
   \<and> destroy example_world example_testnet
       = ([Closed 1 7, Closed 1 8, Closed 2 9, Destroyed 2, Destroyed 1, Destroyed 0], Inr ())
   \<and> close_events example_world (nodes example_testnet) = [Closed 1 7, Closed 1 8, Closed 2 9]
   \<and> destroy_events (nodes example_testnet) = [Destroyed 2, Destroyed 1, Destroyed 0]"
proof -
  note t = destroy_order [of example_world example_testnet]
  have ce: "close_events example_world (nodes example_testnet)
      = [Closed 1 7, Closed 1 8, Closed 2 9]"
    by (simp add: close_events_def example_testnet_def example_world_def first_node_def
        loop_node_def)
  have cr: "createStandardTestnet example_world (Some 3) (Some example_opts)
     = (fst (createStandardTestnet example_world (Some 3) (Some example_opts)),
        Inr example_testnet)"
    by (simp add: example_create3 example_testnet_def)
  have len: "length (nodes example_testnet) = 3" by (simp add: example_testnet_def)
  from t cr have "map node_id (nodes example_testnet) = [0..<length (nodes example_testnet)]
      \<and> destroy_events (nodes example_testnet)
          = map Destroyed (rev [0..<length (nodes example_testnet)])"
    by blast
  then have ids: "map node_id (nodes example_testnet) = [0, 1, 2]"
    and de: "destroy_events (nodes example_testnet) = [Destroyed 2, Destroyed 1, Destroyed 0]"
    by (simp_all add: len upt_rec numeral_2_eq_2)
  have r: "(\<forall>n \<in> set (nodes example_testnet).
              \<forall>s \<in> set (listening example_world (node_id n)).
                closes example_world (node_id n) s = Resolved)
         \<and> (\<forall>n \<in> set (nodes example_testnet). destroys example_world (node_id n) = Resolved)"
    by (simp add: example_world_def)
  from t r
  have "destroy example_world example_testnet
      = (close_events example_world (nodes example_testnet)
           @ destroy_events (nodes example_testnet), Inr ())"
    by blast
  with ce de have d: "destroy example_world example_testnet
       = ([Closed 1 7, Closed 1 8, Closed 2 9, Destroyed 2, Destroyed 1, Destroyed 0], Inr ())"
    by simp
  have l: "listening example_world 0 = []" "listening example_world 1 = [7, 8]"
    "listening example_world 2 = [9]"
    by (simp_all add: example_world_def)
  from cr ids l d ce de show ?thesis by (intro conjI)
qed

section \<open>Claims about the record store and the put\<close>

lemma put_stale:
  "st (publicKey r) = Some cur \<Longrightarrow> sequence r \<le> sequence cur
     \<Longrightarrow> put verify ns gh enc st r = (st, False)"
  by (auto simp: put_def)

lemma put_valid_stored:
  assumes "verify (spec_signable ns gh enc (sequence r) (value_of r)) (signature r) (publicKey r)"
  shows "\<exists>c. fst (put verify ns gh enc st r) (publicKey r) = Some c \<and> sequence r \<le> sequence c"
  using assms by (auto simp: put_def split: option.splits)

text \<open>
  Claim C3. For every public key and every two records for that key with valid
  signatures and sequences \<open>s1 < s2\<close>, put in either order: if the store's entry for the
  key was absent or older than \<open>s2\<close>, a get after both puts returns the record with
  sequence \<open>s2\<close>; whatever the store held, the get returns a record whose sequence is at
  least \<open>s2\<close>, never the one with sequence \<open>s1\<close>, and putting \<open>s1\<close> after \<open>s2\<close> changes
  nothing. In general a put whose sequence is less than or equal to the stored one is not
  accepted and leaves the store unchanged, so the get still returns the stored record.
\<close>

theorem put_monotonic:
  assumes v1: "verify (spec_signable ns gh enc (sequence r1) (value_of r1)) (signature r1) pk"
    and v2: "verify (spec_signable ns gh enc (sequence r2) (value_of r2)) (signature r2) pk"
    and k1: "publicKey r1 = pk" and k2: "publicKey r2 = pk"
    and lt: "sequence r1 < sequence r2"
  shows "((case get st pk of None \<Rightarrow> True | Some cur \<Rightarrow> sequence cur < sequence r2) \<longrightarrow>
            get (fst (put verify ns gh enc (fst (put verify ns gh enc st r1)) r2)) pk = Some r2
          \<and> get (fst (put verify ns gh enc (fst (put verify ns gh enc st r2)) r1)) pk = Some r2)
       \<and> (\<exists>c. get (fst (put verify ns gh enc (fst (put verify ns gh enc st r1)) r2)) pk = Some c
              \<and> sequence r2 \<le> sequence c)
       \<and> (\<exists>c. get (fst (put verify ns gh enc (fst (put verify ns gh enc st r2)) r1)) pk = Some c
              \<and> sequence r2 \<le> sequence c)
       \<and> put verify ns gh enc (fst (put verify ns gh enc st r2)) r1
           = (fst (put verify ns gh enc st r2), False)
       \<and> (\<forall>st' r cur. st' (publicKey r) = Some cur \<and> sequence r \<le> sequence cur \<longrightarrow>
             put verify ns gh enc st' r = (st', False)
           \<and> get (fst (put verify ns gh enc st' r)) (publicKey r) = Some cur)"
proof -
  let ?put = "put verify ns gh enc"
  let ?pre = "case get st pk of None \<Rightarrow> True | Some cur \<Rightarrow> sequence cur < sequence r2"
  from put_valid_stored [of verify ns gh enc r2 st] v2 k2
  obtain c2 where c2: "fst (?put st r2) pk = Some c2" and s2: "sequence r2 \<le> sequence c2"
    by auto
  have "sequence r1 \<le> sequence c2" using lt s2 by simp
  with c2 k1 have noop: "?put (fst (?put st r2)) r1 = (fst (?put st r2), False)"
    by (intro put_stale [where cur = c2]) simp_all
  have g21: "\<exists>c. get (fst (?put (fst (?put st r2)) r1)) pk = Some c \<and> sequence r2 \<le> sequence c"
    using noop c2 s2 by (simp add: get_def)
  have g12: "\<exists>c. get (fst (?put (fst (?put st r1)) r2)) pk = Some c \<and> sequence r2 \<le> sequence c"
    using put_valid_stored [of verify ns gh enc r2 "fst (?put st r1)"] v2 k2
    by (simp add: get_def)
  have exact: "?pre \<longrightarrow> get (fst (?put (fst (?put st r1)) r2)) pk = Some r2
                    \<and> get (fst (?put (fst (?put st r2)) r1)) pk = Some r2"
  proof
    assume pre: ?pre
    have p2: "?put st r2 = (st(pk \<mapsto> r2), True)"
      using v2 k2 pre by (auto simp: put_def get_def split: option.splits)
    have a: "get (fst (?put (fst (?put st r1)) r2)) pk = Some r2"
    proof (cases "fst (?put st r1) pk")
      case None
      then show ?thesis using v2 k2 by (simp add: put_def get_def)
    next
      case (Some cur)
      have "sequence cur < sequence r2"
      proof (cases "snd (?put st r1)")
        case True
        then have "fst (?put st r1) = st(pk \<mapsto> r1)"
          using k1 by (auto simp: put_def split: if_splits option.splits)
        with Some lt show ?thesis by auto
      next
        case False
        then have "fst (?put st r1) = st"
          by (auto simp: put_def split: if_splits option.splits)
        with Some pre show ?thesis by (simp add: get_def)
      qed
      with Some v2 k2 show ?thesis by (simp add: put_def get_def)
    qed
    have b: "get (fst (?put (fst (?put st r2)) r1)) pk = Some r2"
      using noop p2 by (simp add: get_def)
    from a b show "get (fst (?put (fst (?put st r1)) r2)) pk = Some r2
                    \<and> get (fst (?put (fst (?put st r2)) r1)) pk = Some r2" ..
  qed
  have stale: "\<forall>st' r cur. st' (publicKey r) = Some cur \<and> sequence r \<le> sequence cur \<longrightarrow>
             ?put st' r = (st', False) \<and> get (fst (?put st' r)) (publicKey r) = Some cur"
    by (simp add: put_stale get_def)
  from exact g12 g21 noop stale show ?thesis by (intro conjI)
qed

theorem put_monotonic_witness:
  "get (fst (put example_verify example_ns example_gh example_enc
         (fst (put example_verify example_ns example_gh example_enc Map.empty
            (example_record 0 [116])))
         (example_record 2 [116, 119]))) [1, 2] = Some (example_record 2 [116, 119])
   \<and> get (fst (put example_verify example_ns example_gh example_enc
         (fst (put example_verify example_ns example_gh example_enc Map.empty
            (example_record 2 [116, 119])))
         (example_record 0 [116]))) [1, 2] = Some (example_record 2 [116, 119])
   \<and> sequence (example_record 0 [116]) < sequence (example_record 2 [116, 119])
   \<and> get Map.empty [1, 2 :: byte] = (None :: mutable_record option)
   \<and> example_verify
        (spec_signable example_ns example_gh example_enc 0 [116])
        (signature (example_record 0 [116])) [1, 2]
   \<and> example_verify
        (spec_signable example_ns example_gh example_enc 2 [116, 119])
        (signature (example_record 2 [116, 119])) [1, 2]"
proof -
  have v: "\<And>s v. example_verify
            (spec_signable example_ns example_gh example_enc (sequence (example_record s v))
               (value_of (example_record s v)))
            (signature (example_record s v)) [1, 2]"
    by (simp add: example_verify_def example_record_def)
  have k: "\<And>s v. publicKey (example_record s v) = [1, 2]"
    by (simp add: example_record_def)
  have lt: "sequence (example_record 0 [116]) < sequence (example_record 2 [116, 119])"
    by (simp add: example_record_def)
  have pre: "case get Map.empty [1, 2] of None \<Rightarrow> True
             | Some cur \<Rightarrow> sequence cur < sequence (example_record 2 [116, 119])"
    by (simp add: get_def)
  note t = put_monotonic [of example_verify example_ns example_gh example_enc
      "example_record 0 [116]" "[1, 2]" "example_record 2 [116, 119]" Map.empty,
      OF v v k k lt]
  from t pre have c1: "get (fst (put example_verify example_ns example_gh example_enc
         (fst (put example_verify example_ns example_gh example_enc Map.empty
            (example_record 0 [116])))
         (example_record 2 [116, 119]))) [1, 2] = Some (example_record 2 [116, 119])"
    by blast
  from t pre have c2: "get (fst (put example_verify example_ns example_gh example_enc
         (fst (put example_verify example_ns example_gh example_enc Map.empty
            (example_record 2 [116, 119])))
         (example_record 0 [116]))) [1, 2] = Some (example_record 2 [116, 119])"
    by blast
  have c4: "get Map.empty [1, 2 :: byte] = (None :: mutable_record option)"
    by (simp add: get_def)
  have v0: "example_verify
        (spec_signable example_ns example_gh example_enc 0 [116])
        (signature (example_record 0 [116])) [1, 2]"
    using v [of 0 "[116]"] by (simp add: example_record_def)
  have v2: "example_verify
        (spec_signable example_ns example_gh example_enc 2 [116, 119])
        (signature (example_record 2 [116, 119])) [1, 2]"
    using v [of 2 "[116, 119]"] by (simp add: example_record_def)
  from c1 c2 lt c4 v0 v2 show ?thesis by (intro conjI)
qed

text \<open>
  Claim C4. Whenever a mutable put returns a result: without a sequence option, the
  record sent to every one of the closest nodes is built with sequence 0 and signed over
  the signable of sequence 0 and the value, and the result reports sequence 0 and that
  signature; with a sequence option, the record is built and signed with exactly that
  sequence and the result reports it. Every record sent agrees with the result in
  sequence, signature and public key.
\<close>

theorem mutablePut_seq:
  assumes "mutablePut sign closest deliver ns gh enc kp v opts = (sent, Inr res)"
  shows "(opt_seq opts = None \<longrightarrow>
            res_seq res = 0
          \<and> res_signature res = sign (spec_signable ns gh enc 0 v) (secretKey kp)
          \<and> sent = map (\<lambda>n. (n, \<lparr>publicKey = kp_publicKey kp, sequence = 0, value_of = v,
                                   signature = sign (spec_signable ns gh enc 0 v)
                                                 (secretKey kp)\<rparr>))
                     (closest (gh 32 (kp_publicKey kp))))
       \<and> (\<forall>s. opt_seq opts = Some s \<longrightarrow>
            res_seq res = s
          \<and> res_signature res = sign (spec_signable ns gh enc s v) (secretKey kp)
          \<and> sent = map (\<lambda>n. (n, \<lparr>publicKey = kp_publicKey kp, sequence = s, value_of = v,
                                   signature = sign (spec_signable ns gh enc s v)
                                                 (secretKey kp)\<rparr>))
                     (closest (gh 32 (kp_publicKey kp))))
       \<and> res_publicKey res = kp_publicKey kp
       \<and> sent \<noteq> []
       \<and> respondingPeers res \<noteq> []
       \<and> set (respondingPeers res) \<subseteq> fst ` set sent
       \<and> (\<forall>n r. (n, r) \<in> set sent \<longrightarrow>
            sequence r = res_seq res \<and> signature r = res_signature res
          \<and> publicKey r = res_publicKey res \<and> value_of r = v)"
proof -
  define s where "s = (case opt_seq opts of None \<Rightarrow> 0 | Some n \<Rightarrow> n)"
  define r where "r = \<lparr>publicKey = kp_publicKey kp, sequence = s, value_of = v,
                       signature = sign (spec_signable ns gh enc s v) (secretKey kp)\<rparr>"
  define targets where "targets = closest (gh 32 (kp_publicKey kp))"
  have m: "mutablePut sign closest deliver ns gh enc kp v opts =
     (map (\<lambda>n. (n, r)) targets,
      if filter (\<lambda>n. deliver n r) targets = [] then Inl NetworkUnavailable
      else Inr \<lparr>res_signature = sign (spec_signable ns gh enc s v) (secretKey kp),
                res_seq = s, res_publicKey = kp_publicKey kp,
                respondingPeers = filter (\<lambda>n. deliver n r) targets\<rparr>)"
    by (simp add: mutablePut_def Let_def s_def r_def targets_def)
  from assms m have sent: "sent = map (\<lambda>n. (n, r)) targets"
    and ne: "filter (\<lambda>n. deliver n r) targets \<noteq> []"
    and res: "res = \<lparr>res_signature = sign (spec_signable ns gh enc s v) (secretKey kp),
                res_seq = s, res_publicKey = kp_publicKey kp,
                respondingPeers = filter (\<lambda>n. deliver n r) targets\<rparr>"
    by (auto split: if_splits)
  from ne have tne: "targets \<noteq> []" by auto
  have a: "opt_seq opts = None \<longrightarrow>
            res_seq res = 0
          \<and> res_signature res = sign (spec_signable ns gh enc 0 v) (secretKey kp)
          \<and> sent = map (\<lambda>n. (n, \<lparr>publicKey = kp_publicKey kp, sequence = 0, value_of = v,
                                   signature = sign (spec_signable ns gh enc 0 v)
                                                 (secretKey kp)\<rparr>))
                     (closest (gh 32 (kp_publicKey kp)))"
    by (simp add: res sent r_def s_def targets_def)
  have b: "\<forall>s'. opt_seq opts = Some s' \<longrightarrow>
            res_seq res = s'
          \<and> res_signature res = sign (spec_signable ns gh enc s' v) (secretKey kp)
          \<and> sent = map (\<lambda>n. (n, \<lparr>publicKey = kp_publicKey kp, sequence = s', value_of = v,
                                   signature = sign (spec_signable ns gh enc s' v)
                                                 (secretKey kp)\<rparr>))
                     (closest (gh 32 (kp_publicKey kp)))"
    by (simp add: res sent r_def s_def targets_def)
  have c: "res_publicKey res = kp_publicKey kp" by (simp add: res)
  have d: "sent \<noteq> []" using tne by (simp add: sent)
  have e: "respondingPeers res \<noteq> []" using ne by (simp add: res)
  have f: "set (respondingPeers res) \<subseteq> fst ` set sent"
    by (auto simp: res sent image_image)
  have g: "\<forall>n r'. (n, r') \<in> set sent \<longrightarrow>
            sequence r' = res_seq res \<and> signature r' = res_signature res
          \<and> publicKey r' = res_publicKey res \<and> value_of r' = v"
    by (auto simp: res sent r_def)
  from a b c d e f g show ?thesis by (intro conjI)
qed

lemma example_put0:
  "mutablePut example_sign example_closest example_deliver example_ns example_gh example_enc
      example_keyPair [116] \<lparr>opt_seq = None\<rparr>
     = ([(3, \<lparr>publicKey = [1, 2], sequence = 0, value_of = [116],
              signature = [5] @ spec_signable example_ns example_gh example_enc 0 [116]\<rparr>),
         (30, \<lparr>publicKey = [1, 2], sequence = 0, value_of = [116],
               signature = [5] @ spec_signable example_ns example_gh example_enc 0 [116]\<rparr>)],
        Inr \<lparr>res_signature = [5] @ spec_signable example_ns example_gh example_enc 0 [116],
             res_seq = 0, res_publicKey = [1, 2], respondingPeers = [30]\<rparr>)"
  by (simp add: mutablePut_def Let_def example_sign_def example_closest_def
      example_deliver_def example_keyPair_def)

lemma example_put2:
  "mutablePut example_sign example_closest example_deliver example_ns example_gh example_enc
      example_keyPair [116, 119] \<lparr>opt_seq = Some 2\<rparr>
     = ([(3, \<lparr>publicKey = [1, 2], sequence = 2, value_of = [116, 119],
              signature = [5] @ spec_signable example_ns example_gh example_enc 2 [116, 119]\<rparr>),
         (30, \<lparr>publicKey = [1, 2], sequence = 2, value_of = [116, 119],
               signature = [5] @ spec_signable example_ns example_gh example_enc 2 [116, 119]\<rparr>)],
        Inr \<lparr>res_signature = [5] @ spec_signable example_ns example_gh example_enc 2 [116, 119],
             res_seq = 2, res_publicKey = [1, 2], respondingPeers = [30]\<rparr>)"
  by (simp add: mutablePut_def Let_def example_sign_def example_closest_def
      example_deliver_def example_keyPair_def)

theorem mutablePut_seq_witness:
  "mutablePut example_sign example_closest example_deliver example_ns example_gh example_enc
      example_keyPair [116] \<lparr>opt_seq = None\<rparr>
     = (map (\<lambda>n. (n, \<lparr>publicKey = kp_publicKey example_keyPair, sequence = 0,
                        value_of = [116],
                        signature = example_sign
                          (spec_signable example_ns example_gh example_enc 0 [116])
                          (secretKey example_keyPair)\<rparr>))
          (example_closest (example_gh 32 (kp_publicKey example_keyPair))),
        Inr \<lparr>res_signature = [5] @ spec_signable example_ns example_gh example_enc 0 [116],
             res_seq = 0, res_publicKey = [1, 2], respondingPeers = [30]\<rparr>)
   \<and> example_closest (example_gh 32 (kp_publicKey example_keyPair)) = [3, 30]
   \<and> mutablePut example_sign example_closest example_deliver example_ns example_gh example_enc
      example_keyPair [116, 119] \<lparr>opt_seq = Some 2\<rparr>
     = (map (\<lambda>n. (n, \<lparr>publicKey = kp_publicKey example_keyPair, sequence = 2,
                        value_of = [116, 119],
                        signature = example_sign
                          (spec_signable example_ns example_gh example_enc 2 [116, 119])
                          (secretKey example_keyPair)\<rparr>))
          (example_closest (example_gh 32 (kp_publicKey example_keyPair))),
        Inr \<lparr>res_signature = [5] @ spec_signable example_ns example_gh example_enc 2 [116, 119],
             res_seq = 2, res_publicKey = [1, 2], respondingPeers = [30]\<rparr>)"
proof -
  let ?s0 = "[(3, \<lparr>publicKey = [1, 2], sequence = 0, value_of = [116],
              signature = [5] @ spec_signable example_ns example_gh example_enc 0 [116]\<rparr>),
         (30, \<lparr>publicKey = [1, 2], sequence = 0, value_of = [116],
               signature = [5] @ spec_signable example_ns example_gh example_enc 0 [116]\<rparr>)]"
  let ?s2 = "[(3, \<lparr>publicKey = [1, 2], sequence = 2, value_of = [116, 119],
              signature = [5] @ spec_signable example_ns example_gh example_enc 2 [116, 119]\<rparr>),
         (30, \<lparr>publicKey = [1, 2], sequence = 2, value_of = [116, 119],
               signature = [5] @ spec_signable example_ns example_gh example_enc 2 [116, 119]\<rparr>)]"
  have o0: "opt_seq \<lparr>opt_seq = None\<rparr> = (None :: 64 word option)" by simp
  have o2: "opt_seq \<lparr>opt_seq = Some 2\<rparr> = Some (2 :: 64 word)" by simp
  from mutablePut_seq [OF example_put0] o0
  have a: "?s0 = map (\<lambda>n. (n, \<lparr>publicKey = kp_publicKey example_keyPair, sequence = 0,
                        value_of = [116],
                        signature = example_sign
                          (spec_signable example_ns example_gh example_enc 0 [116])
                          (secretKey example_keyPair)\<rparr>))
          (example_closest (example_gh 32 (kp_publicKey example_keyPair)))"
    by blast
  from mutablePut_seq [OF example_put2] o2
  have b: "?s2 = map (\<lambda>n. (n, \<lparr>publicKey = kp_publicKey example_keyPair, sequence = 2,
                        value_of = [116, 119],
                        signature = example_sign
                          (spec_signable example_ns example_gh example_enc 2 [116, 119])
                          (secretKey example_keyPair)\<rparr>))
          (example_closest (example_gh 32 (kp_publicKey example_keyPair)))"
    by blast
  have c: "example_closest (example_gh 32 (kp_publicKey example_keyPair)) = [3, 30]"
    by (simp add: example_closest_def)
  from example_put0 a have p0: "mutablePut example_sign example_closest example_deliver
      example_ns example_gh example_enc example_keyPair [116] \<lparr>opt_seq = None\<rparr>
     = (map (\<lambda>n. (n, \<lparr>publicKey = kp_publicKey example_keyPair, sequence = 0,
                        value_of = [116],
                        signature = example_sign
                          (spec_signable example_ns example_gh example_enc 0 [116])
                          (secretKey example_keyPair)\<rparr>))
          (example_closest (example_gh 32 (kp_publicKey example_keyPair))),
        Inr \<lparr>res_signature = [5] @ spec_signable example_ns example_gh example_enc 0 [116],
             res_seq = 0, res_publicKey = [1, 2], respondingPeers = [30]\<rparr>)"
    by (simp only:)
  from example_put2 b have p2: "mutablePut example_sign example_closest example_deliver
      example_ns example_gh example_enc example_keyPair [116, 119] \<lparr>opt_seq = Some 2\<rparr>
     = (map (\<lambda>n. (n, \<lparr>publicKey = kp_publicKey example_keyPair, sequence = 2,
                        value_of = [116, 119],
                        signature = example_sign
                          (spec_signable example_ns example_gh example_enc 2 [116, 119])
                          (secretKey example_keyPair)\<rparr>))
          (example_closest (example_gh 32 (kp_publicKey example_keyPair))),
        Inr \<lparr>res_signature = [5] @ spec_signable example_ns example_gh example_enc 2 [116, 119],
             res_seq = 2, res_publicKey = [1, 2], respondingPeers = [30]\<rparr>)"
    by (simp only:)
  from p0 c p2 show ?thesis by (intro conjI)
qed

text \<open>The put returns a result as soon as one of the closest nodes is reached.\<close>

lemma mutablePut_returns:
  assumes "n \<in> set (closest (gh 32 (kp_publicKey kp)))" and "\<And>r. deliver n r"
  shows "\<exists>sent res. mutablePut sign closest deliver ns gh enc kp v opts = (sent, Inr res)"
  using assms by (auto simp: mutablePut_def Let_def filter_empty_conv)

end
